theory Spec2Isabelle
  imports Complex_Main "HOL-Library.Word"
begin

section \<open>Values of the analysed document\<close>

text \<open>
  \<^verbatim>\<open>sop_analyzer.py\<close> works on whatever \<^verbatim>\<open>json.loads\<close> returns: \<^verbatim>\<open>None\<close>, booleans,
  integers, floats, strings, lists and dictionaries with string keys. A Python \<^verbatim>\<open>str\<close> is
  held as the bytes of its UTF-8 encoding (the encoding is injective, and the analyser only
  compares strings for equality). A float is held by the exact rational it denotes, or as
  one of the three special values; Python compares a float with an integer exactly, so this
  is all that equality of values needs.
\<close>

datatype pyfloat = Finite rat | PosInf | NegInf | NaN

datatype json =
    JNull
  | JBool bool
  | JInt int
  | JFloat pyfloat
  | JStr string
  | JArr "json list"
  | JObj "(string \<times> json) list"

text \<open>
  Exceptions are values. The two classes raised by attribute access and by hashing or sizing
  a value of the wrong type carry no message here; the others carry \<^verbatim>\<open>str(e)\<close>.
\<close>

datatype py_error =
    FileNotFoundError string
  | ValueError string
  | BadZipFile string
  | JSONDecodeError string
  | UnicodeDecodeError string
  | ZlibError string
  | AttributeError
  | TypeError
  | OtherError string

subsection \<open>Dictionaries parsed from JSON objects\<close>

text \<open>\<^verbatim>\<open>d.get(key, default)\<close> on a dictionary with string keys.\<close>

definition get_field :: "(string \<times> json) list \<Rightarrow> string \<Rightarrow> json \<Rightarrow> json" where
  "get_field d k dflt = (case map_of d k of None \<Rightarrow> dflt | Some v \<Rightarrow> v)"

subsection \<open>Dictionaries built by the analyser\<close>

text \<open>
  The dictionaries \<^verbatim>\<open>tables\<close> and \<^verbatim>\<open>actions\<close> are keyed by values read from the document.
  Python finds a key by hash and \<^verbatim>\<open>==\<close>: \<^verbatim>\<open>True\<close>, \<^verbatim>\<open>1\<close> and \<^verbatim>\<open>1.0\<close> are one key, a list or
  a dictionary is unhashable (\<^verbatim>\<open>TypeError\<close>). \<open>py_key\<close> gives the class of a value under
  that equality, \<open>None\<close> for an unhashable one. A dictionary keeps its keys in insertion
  order, and keeps the key object that was inserted first.
\<close>

datatype pykey = KNone | KNum rat | KPosInf | KNegInf | KNaN | KStr string

fun py_key :: "json \<Rightarrow> pykey option" where
  "py_key JNull = Some KNone"
| "py_key (JBool b) = Some (KNum (if b then 1 else 0))"
| "py_key (JInt i) = Some (KNum (of_int i))"
| "py_key (JFloat (Finite q)) = Some (KNum q)"
| "py_key (JFloat PosInf) = Some KPosInf"
| "py_key (JFloat NegInf) = Some KNegInf"
| "py_key (JFloat NaN) = Some KNaN"
| "py_key (JStr s) = Some (KStr s)"
| "py_key (JArr xs) = None"
| "py_key (JObj d) = None"

type_synonym 'v pydict = "(json \<times> 'v) list"

text \<open>\<^verbatim>\<open>d.get(k, dflt)\<close> and \<^verbatim>\<open>d[k] = v\<close> for a hashable \<open>k\<close>.\<close>

fun dict_get :: "'v pydict \<Rightarrow> json \<Rightarrow> 'v \<Rightarrow> 'v" where
  "dict_get [] k dflt = dflt"
| "dict_get ((k', v) # d) k dflt = (if py_key k' = py_key k then v else dict_get d k dflt)"

fun dict_set :: "'v pydict \<Rightarrow> json \<Rightarrow> 'v \<Rightarrow> 'v pydict" where
  "dict_set [] k v = [(k, v)]"
| "dict_set ((k', v') # d) k v =
     (if py_key k' = py_key k then (k', v) # d else (k', v') # dict_set d k v)"

text \<open>\<^verbatim>\<open>k in d\<close> for a hashable \<open>k\<close>.\<close>

definition dict_mem :: "'v pydict \<Rightarrow> json \<Rightarrow> bool" where
  "dict_mem d k = (py_key k \<in> set (map (py_key \<circ> fst) d))"

subsection \<open>Sizing and iterating a value\<close>

text \<open>
  \<^verbatim>\<open>records = data.get('records', [])\<close> may be any value. \<^verbatim>\<open>len\<close> and \<^verbatim>\<open>for\<close> accept a list,
  a string (its characters, each a one-character string) and a dictionary (its keys), and
  raise \<^verbatim>\<open>TypeError\<close> on the rest.
\<close>

definition is_continuation :: "char \<Rightarrow> bool" where
  "is_continuation c = (128 \<le> (of_char c :: nat) \<and> (of_char c :: nat) < 192)"

function utf8_chars :: "string \<Rightarrow> string list" where
  "utf8_chars [] = []"
| "utf8_chars (c # cs) =
     (c # takeWhile is_continuation cs) # utf8_chars (dropWhile is_continuation cs)"
  by pat_completeness auto
termination
  by (relation "measure length") (auto simp: length_dropWhile_le less_Suc_eq_le)

fun py_iter :: "json \<Rightarrow> py_error + json list" where
  "py_iter (JArr xs) = Inr xs"
| "py_iter (JStr s) = Inr (map JStr (utf8_chars s))"
| "py_iter (JObj d) = Inr (map (JStr \<circ> fst) d)"
| "py_iter v = Inl TypeError"

definition py_len :: "json \<Rightarrow> py_error + int" where
  "py_len v = (case py_iter v of Inl e \<Rightarrow> Inl e | Inr xs \<Rightarrow> Inr (int (length xs)))"

section \<open>Record statistics\<close>

record RecordStats =
  total :: int
  deletes :: int
  strong_overwrites :: int

text \<open>
  The loop of \<^verbatim>\<open>analyze_records\<close>. \<^verbatim>\<open>record.get\<close> exists on a dictionary only: any other
  element raises \<^verbatim>\<open>AttributeError\<close>. \<^verbatim>\<open>record.get('is_strong_overwrite') is True\<close> holds for
  the boolean \<^verbatim>\<open>True\<close> and for nothing else; \<^verbatim>\<open>record.get('action') == 'delete'\<close> holds
  for the string alone.
\<close>

fun records_loop :: "json list \<Rightarrow> RecordStats \<Rightarrow> py_error + RecordStats" where
  "records_loop [] stats = Inr stats"
| "records_loop (JObj r # rest) stats =
     records_loop rest
       (stats\<lparr>deletes := deletes stats + (if get_field r ''action'' JNull = JStr ''delete'' then 1 else 0),
              strong_overwrites := strong_overwrites stats +
                (if get_field r ''is_strong_overwrite'' JNull = JBool True then 1 else 0)\<rparr>)"
| "records_loop (v # rest) stats = Inl AttributeError"

text \<open>\<^verbatim>\<open>analyze_records\<close>, on the document that \<^verbatim>\<open>load_data\<close> returned.\<close>

definition analyze_records :: "json \<Rightarrow> py_error + RecordStats" where
  "analyze_records data =
     (case data of
        JObj d \<Rightarrow>
          (let records = get_field d ''records'' (JArr []) in
           case py_len records of
             Inl e \<Rightarrow> Inl e
           | Inr n \<Rightarrow>
               (case py_iter records of
                  Inl e \<Rightarrow> Inl e
                | Inr rs \<Rightarrow> records_loop rs \<lparr>total = n, deletes = 0, strong_overwrites = 0\<rparr>))
      | _ \<Rightarrow> Inl AttributeError)"

section \<open>Actions summary\<close>

text \<open>
  The loop of \<^verbatim>\<open>get_actions_summary\<close>: \<^verbatim>\<open>actions[action] = actions.get(action, 0) + 1\<close>.
  Hashing an unhashable \<open>action\<close> raises \<^verbatim>\<open>TypeError\<close>.
\<close>

fun actions_loop :: "json list \<Rightarrow> int pydict \<Rightarrow> py_error + int pydict" where
  "actions_loop [] acts = Inr acts"
| "actions_loop (JObj r # rest) acts =
     (let action = get_field r ''action'' (JStr ''unknown'')
      in if py_key action = None then Inl TypeError
         else actions_loop rest (dict_set acts action (dict_get acts action 0 + 1)))"
| "actions_loop (v # rest) acts = Inl AttributeError"

definition get_actions_summary :: "json \<Rightarrow> py_error + int pydict" where
  "get_actions_summary data =
     (case data of
        JObj d \<Rightarrow>
          (case py_iter (get_field d ''records'' (JArr [])) of
             Inl e \<Rightarrow> Inl e
           | Inr rs \<Rightarrow> actions_loop rs [])
      | _ \<Rightarrow> Inl AttributeError)"

section \<open>Tables\<close>

record TableInfo =
  name :: json
  record_count :: int
  actions :: "int pydict"

text \<open>
  An entry of \<^verbatim>\<open>tables\<close> is the dictionary \<^verbatim>\<open>{'count': c, 'actions': a}\<close>, here the pair
  \<open>(c, a)\<close>. The body of the loop of \<^verbatim>\<open>analyze_tables\<close>, statement by statement: the
  membership test hashes \<open>table_name\<close>, the last statement hashes \<open>action\<close>.
\<close>

type_synonym table_data = "int \<times> int pydict"

definition tables_step :: "(string \<times> json) list \<Rightarrow> table_data pydict \<Rightarrow> py_error + table_data pydict" where
  "tables_step r tables =
     (let table_name = get_field r ''table_name'' (JStr ''unknown'');
          action = get_field r ''action'' (JStr ''unknown'')
      in if py_key table_name = None then Inl TypeError
         else
           let tables1 = (if \<not> dict_mem tables table_name
                          then dict_set tables table_name (0, []) else tables);
               tables2 = dict_set tables1 table_name
                           (fst (dict_get tables1 table_name (0, [])) + 1,
                            snd (dict_get tables1 table_name (0, [])))
           in if py_key action = None then Inl TypeError
              else
                let acts = snd (dict_get tables2 table_name (0, []))
                in Inr (dict_set tables2 table_name
                          (fst (dict_get tables2 table_name (0, [])),
                           dict_set acts action (dict_get acts action 0 + 1))))"

fun tables_loop :: "json list \<Rightarrow> table_data pydict \<Rightarrow> py_error + table_data pydict" where
  "tables_loop [] tables = Inr tables"
| "tables_loop (JObj r # rest) tables =
     (case tables_step r tables of
        Inl e \<Rightarrow> Inl e
      | Inr tables' \<Rightarrow> tables_loop rest tables')"
| "tables_loop (v # rest) tables = Inl AttributeError"

text \<open>
  \<^verbatim>\<open>sorted(xs, key=f, reverse=True)\<close>: CPython reverses the list, sorts it with its stable
  sort and reverses the result, so that elements with equal keys keep their order.
  \<open>sort_key\<close> is the stable sort of the library.
\<close>

definition sorted_reverse :: "('a \<Rightarrow> int) \<Rightarrow> 'a list \<Rightarrow> 'a list" where
  "sorted_reverse f xs = rev (sort_key f (rev xs))"

definition analyze_tables :: "json \<Rightarrow> py_error + TableInfo list" where
  "analyze_tables data =
     (case data of
        JObj d \<Rightarrow>
          (case py_iter (get_field d ''records'' (JArr [])) of
             Inl e \<Rightarrow> Inl e
           | Inr rs \<Rightarrow>
               (case tables_loop rs [] of
                  Inl e \<Rightarrow> Inl e
                | Inr tables \<Rightarrow>
                    Inr (map (\<lambda>(table_name, table_data).
                                \<lparr>name = table_name, record_count = fst table_data,
                                 actions = snd table_data\<rparr>)
                           (sorted_reverse (\<lambda>x. fst (snd x)) tables))))
      | _ \<Rightarrow> Inl AttributeError)"

section \<open>Metadata\<close>

text \<open>
  The default of \<^verbatim>\<open>name\<close>, \<^verbatim>\<open>pack_application_id\<close> and \<^verbatim>\<open>version\<close> is a ten-letter Cyrillic
  word (the Russian for "unknown"), written here as the twenty bytes of its UTF-8 encoding.
\<close>

definition default_unknown :: string where
  "default_unknown = [CHR 0xD0, CHR 0x9D, CHR 0xD0, CHR 0xB5, CHR 0xD0, CHR 0xB8, CHR 0xD0, CHR 0xB7,
                        CHR 0xD0, CHR 0xB2, CHR 0xD0, CHR 0xB5, CHR 0xD1, CHR 0x81, CHR 0xD1, CHR 0x82,
                        CHR 0xD0, CHR 0xBD, CHR 0xD0, CHR 0xBE]"

definition get_metadata :: "json \<Rightarrow> py_error + (string \<times> json) list" where
  "get_metadata data =
     (case data of
        JObj d \<Rightarrow>
          Inr [(''name'', get_field d ''name'' (JStr default_unknown)),
               (''pack_application_id'', get_field d ''pack_application_id'' (JStr default_unknown)),
               (''timestamp'', get_field d ''timestamp'' JNull),
               (''version'', get_field d ''version'' (JStr default_unknown))]
      | _ \<Rightarrow> Inl AttributeError)"

section \<open>Decompression\<close>

text \<open>
  \<^verbatim>\<open>zlib.decompress(data, wbits)\<close> is the C library's inflate, not code of the analyser: it
  is a parameter of the model, a function from the bytes and the window argument to the
  output or the exception raised (\<^verbatim>\<open>wbits\<close> is 15 when the call leaves it out).
\<close>

type_synonym bytes = "8 word list"

type_synonym inflate = "bytes \<Rightarrow> int \<Rightarrow> py_error + bytes"

definition try_raw_deflate :: "inflate \<Rightarrow> bytes \<Rightarrow> py_error + bytes" where
  "try_raw_deflate zd data = zd data (- 15)"

definition try_zlib_deflate :: "inflate \<Rightarrow> bytes \<Rightarrow> py_error + bytes" where
  "try_zlib_deflate zd data = zd data 15"

definition gzip_header :: bytes where
  "gzip_header = [0x1F, 0x8B, 0x08, 0x00, 0x00, 0x00, 0x00, 0x00, 0x02, 0xFF]"

definition try_gzip_format :: "inflate \<Rightarrow> bytes \<Rightarrow> py_error + bytes" where
  "try_gzip_format zd data =
     zd (gzip_header @ data @ [0x00, 0x00, 0x00, 0x00, 0x00, 0x00, 0x00, 0x00]) (15 + 32)"

text \<open>
  A loop of the shape \<^verbatim>\<open>for x in xs: try: return f(x) except: continue\<close> returns the
  first attempt that does not raise.
\<close>

fun first_success :: "(py_error + bytes) list \<Rightarrow> bytes option" where
  "first_success [] = None"
| "first_success (Inr r # rest) = Some r"
| "first_success (Inl e # rest) = first_success rest"

definition headers_to_try :: "bytes list" where
  "headers_to_try = [[], [0x78, 0x9C], [0x78, 0x01], [0x78, 0xDA]]"

text \<open>
  The messages of the exceptions are Russian sentences in the source. Each is written here
  as the bytes of its UTF-8 encoding.
\<close>

definition msg_headers_failed :: string where
  "msg_headers_failed = [CHR 0xD0, CHR 0x92, CHR 0xD1, CHR 0x81, CHR 0xD0, CHR 0xB5, CHR 0x20, CHR 0xD0,
       CHR 0xBC, CHR 0xD0, CHR 0xB5, CHR 0xD1, CHR 0x82, CHR 0xD0, CHR 0xBE, CHR 0xD0,
       CHR 0xB4, CHR 0xD1, CHR 0x8B, CHR 0x20, CHR 0xD1, CHR 0x81, CHR 0x20, CHR 0xD0,
       CHR 0xB7, CHR 0xD0, CHR 0xB0, CHR 0xD0, CHR 0xB3, CHR 0xD0, CHR 0xBE, CHR 0xD0,
       CHR 0xBB, CHR 0xD0, CHR 0xBE, CHR 0xD0, CHR 0xB2, CHR 0xD0, CHR 0xBA, CHR 0xD0,
       CHR 0xB0, CHR 0xD0, CHR 0xBC, CHR 0xD0, CHR 0xB8, CHR 0x20, CHR 0xD0, CHR 0xBD,
       CHR 0xD0, CHR 0xB5, CHR 0x20, CHR 0xD1, CHR 0x81, CHR 0xD1, CHR 0x80, CHR 0xD0,
       CHR 0xB0, CHR 0xD0, CHR 0xB1, CHR 0xD0, CHR 0xBE, CHR 0xD1, CHR 0x82, CHR 0xD0,
       CHR 0xB0, CHR 0xD0, CHR 0xBB, CHR 0xD0, CHR 0xB8]"

definition try_with_headers :: "inflate \<Rightarrow> bytes \<Rightarrow> py_error + bytes" where
  "try_with_headers zd data =
     (case first_success (map (\<lambda>header. zd (header @ data) 15) headers_to_try) of
        Some r \<Rightarrow> Inr r
      | None \<Rightarrow>
          (case first_success (map (\<lambda>i. zd (drop i data) (- 15)) [0 ..< min 10 (length data)]) of
             Some r \<Rightarrow> Inr r
           | None \<Rightarrow> Inl (ValueError msg_headers_failed)))"

text \<open>
  \<^verbatim>\<open>_decompress_data\<close> prints one line for each method it calls: the method's name after a
  check mark when it returned, the name and the exception after a cross when it raised.
  The printed lines are part of the result.
\<close>

datatype log_line = Succeeded string | Failed string py_error

definition methods :: "inflate \<Rightarrow> (string \<times> (bytes \<Rightarrow> py_error + bytes)) list" where
  "methods zd =
     [(''_try_raw_deflate'', try_raw_deflate zd),
      (''_try_zlib_deflate'', try_zlib_deflate zd),
      (''_try_gzip_format'', try_gzip_format zd),
      (''_try_with_headers'', try_with_headers zd)]"

definition msg_exhausted :: string where
  "msg_exhausted = [CHR 0xD0, CHR 0x9D, CHR 0xD0, CHR 0xB5, CHR 0x20, CHR 0xD1, CHR 0x83, CHR 0xD0,
       CHR 0xB4, CHR 0xD0, CHR 0xB0, CHR 0xD0, CHR 0xBB, CHR 0xD0, CHR 0xBE, CHR 0xD1,
       CHR 0x81, CHR 0xD1, CHR 0x8C, CHR 0x20, CHR 0xD0, CHR 0xB4, CHR 0xD0, CHR 0xB5,
       CHR 0xD0, CHR 0xBA, CHR 0xD0, CHR 0xBE, CHR 0xD0, CHR 0xBC, CHR 0xD0, CHR 0xBF,
       CHR 0xD1, CHR 0x80, CHR 0xD0, CHR 0xB5, CHR 0xD1, CHR 0x81, CHR 0xD1, CHR 0x81,
       CHR 0xD0, CHR 0xB8, CHR 0xD1, CHR 0x80, CHR 0xD0, CHR 0xBE, CHR 0xD0, CHR 0xB2,
       CHR 0xD0, CHR 0xB0, CHR 0xD1, CHR 0x82, CHR 0xD1, CHR 0x8C, CHR 0x20, CHR 0xD0,
       CHR 0xB4, CHR 0xD0, CHR 0xB0, CHR 0xD0, CHR 0xBD, CHR 0xD0, CHR 0xBD, CHR 0xD1,
       CHR 0x8B, CHR 0xD0, CHR 0xB5, CHR 0x20, CHR 0xD0, CHR 0xBD, CHR 0xD0, CHR 0xB8,
       CHR 0x20, CHR 0xD0, CHR 0xBE, CHR 0xD0, CHR 0xB4, CHR 0xD0, CHR 0xBD, CHR 0xD0,
       CHR 0xB8, CHR 0xD0, CHR 0xBC, CHR 0x20, CHR 0xD0, CHR 0xB8, CHR 0xD0, CHR 0xB7,
       CHR 0x20, CHR 0xD0, CHR 0xBC, CHR 0xD0, CHR 0xB5, CHR 0xD1, CHR 0x82, CHR 0xD0,
       CHR 0xBE, CHR 0xD0, CHR 0xB4, CHR 0xD0, CHR 0xBE, CHR 0xD0, CHR 0xB2]"

fun decompress_loop ::
  "(string \<times> (bytes \<Rightarrow> py_error + bytes)) list \<Rightarrow> bytes \<Rightarrow> log_line list \<times> (py_error + bytes)" where
  "decompress_loop [] data = ([], Inl (ValueError msg_exhausted))"
| "decompress_loop ((method_name, method) # rest) data =
     (case method data of
        Inr result \<Rightarrow> ([Succeeded method_name], Inr result)
      | Inl e \<Rightarrow>
          (Failed method_name e # fst (decompress_loop rest data),
           snd (decompress_loop rest data)))"

definition decompress_data :: "inflate \<Rightarrow> bytes \<Rightarrow> log_line list \<times> (py_error + bytes)" where
  "decompress_data zd compressed_data = decompress_loop (methods zd) compressed_data"

section \<open>Loading the document\<close>

text \<open>
  The library functions \<^verbatim>\<open>load_data\<close> calls, as parameters: inflate, \<^verbatim>\<open>bytes.decode('utf-8')\<close>
  and \<^verbatim>\<open>json.loads\<close>.
\<close>

record library =
  zlib_decompress :: inflate
  utf8_decode :: "bytes \<Rightarrow> py_error + string"
  json_loads :: "string \<Rightarrow> py_error + json"

text \<open>
  What the file system answers during one call: whether the path exists, and what
  \<^verbatim>\<open>zipfile.ZipFile(path, 'r')\<close> gives, an exception or the archive. An archive is its
  entries in the order of \<^verbatim>\<open>namelist()\<close>, each with the outcome of opening and reading it.
  \<^verbatim>\<open>ZipFile.open(name)\<close> finds an entry by name, and of two entries with one name it finds the
  later one.
\<close>

type_synonym archive = "(string \<times> (py_error + bytes)) list"

record environment =
  path_exists :: bool
  open_zip :: "py_error + archive"

definition zip_read :: "archive \<Rightarrow> string \<Rightarrow> py_error + bytes" where
  "zip_read entries f =
     (case filter (\<lambda>entry. fst entry = f) entries of
        [] \<Rightarrow> Inl (OtherError ''KeyError'')
      | found \<Rightarrow> snd (last found))"

definition ends_with :: "string \<Rightarrow> string \<Rightarrow> bool" where
  "ends_with s suffix =
     (length suffix \<le> length s \<and> drop (length s - length suffix) s = suffix)"

text \<open>The object: its path and \<^verbatim>\<open>self._data\<close>, where \<open>JNull\<close> is Python's \<^verbatim>\<open>None\<close>.\<close>

record analyzer =
  sop_file_path :: string
  self_data :: json

definition init :: "string \<Rightarrow> analyzer" where
  "init path = \<lparr>sop_file_path = path, self_data = JNull\<rparr>"

definition msg_not_found :: string where
  "msg_not_found = [CHR 0x53, CHR 0x4F, CHR 0x50, CHR 0x20, CHR 0xD1, CHR 0x84, CHR 0xD0, CHR 0xB0,
       CHR 0xD0, CHR 0xB9, CHR 0xD0, CHR 0xBB, CHR 0x20, CHR 0xD0, CHR 0xBD, CHR 0xD0,
       CHR 0xB5, CHR 0x20, CHR 0xD0, CHR 0xBD, CHR 0xD0, CHR 0xB0, CHR 0xD0, CHR 0xB9,
       CHR 0xD0, CHR 0xB4, CHR 0xD0, CHR 0xB5, CHR 0xD0, CHR 0xBD, CHR 0x3A, CHR 0x20]"

definition msg_no_data_file :: string where
  "msg_no_data_file = [CHR 0xD0, CHR 0x92, CHR 0x20, CHR 0xD0, CHR 0xB0, CHR 0xD1, CHR 0x80, CHR 0xD1,
       CHR 0x85, CHR 0xD0, CHR 0xB8, CHR 0xD0, CHR 0xB2, CHR 0xD0, CHR 0xB5, CHR 0x20,
       CHR 0xD0, CHR 0xBD, CHR 0xD0, CHR 0xB5, CHR 0x20, CHR 0xD0, CHR 0xBD, CHR 0xD0,
       CHR 0xB0, CHR 0xD0, CHR 0xB9, CHR 0xD0, CHR 0xB4, CHR 0xD0, CHR 0xB5, CHR 0xD0,
       CHR 0xBD, CHR 0x20, CHR 0xD1, CHR 0x84, CHR 0xD0, CHR 0xB0, CHR 0xD0, CHR 0xB9,
       CHR 0xD0, CHR 0xBB, CHR 0x20, CHR 0xD1, CHR 0x81, CHR 0x20, CHR 0xD0, CHR 0xB4,
       CHR 0xD0, CHR 0xB0, CHR 0xD0, CHR 0xBD, CHR 0xD0, CHR 0xBD, CHR 0xD1, CHR 0x8B,
       CHR 0xD0, CHR 0xBC, CHR 0xD0, CHR 0xB8, CHR 0x20, CHR 0x28, CHR 0x2E, CHR 0x64,
       CHR 0x61, CHR 0x74, CHR 0x61, CHR 0x29]"

definition msg_bad_zip :: string where
  "msg_bad_zip = [CHR 0xD0, CHR 0x9D, CHR 0xD0, CHR 0xB5, CHR 0xD0, CHR 0xBA, CHR 0xD0, CHR 0xBE,
       CHR 0xD1, CHR 0x80, CHR 0xD1, CHR 0x80, CHR 0xD0, CHR 0xB5, CHR 0xD0, CHR 0xBA,
       CHR 0xD1, CHR 0x82, CHR 0xD0, CHR 0xBD, CHR 0xD1, CHR 0x8B, CHR 0xD0, CHR 0xB9,
       CHR 0x20, CHR 0x5A, CHR 0x49, CHR 0x50, CHR 0x20, CHR 0xD0, CHR 0xB0, CHR 0xD1,
       CHR 0x80, CHR 0xD1, CHR 0x85, CHR 0xD0, CHR 0xB8, CHR 0xD0, CHR 0xB2]"

definition msg_json_error :: string where
  "msg_json_error = [CHR 0xD0, CHR 0x9E, CHR 0xD1, CHR 0x88, CHR 0xD0, CHR 0xB8, CHR 0xD0, CHR 0xB1,
       CHR 0xD0, CHR 0xBA, CHR 0xD0, CHR 0xB0, CHR 0x20, CHR 0xD0, CHR 0xBF, CHR 0xD0,
       CHR 0xB0, CHR 0xD1, CHR 0x80, CHR 0xD1, CHR 0x81, CHR 0xD0, CHR 0xB8, CHR 0xD0,
       CHR 0xBD, CHR 0xD0, CHR 0xB3, CHR 0xD0, CHR 0xB0, CHR 0x20, CHR 0x4A, CHR 0x53,
       CHR 0x4F, CHR 0x4E, CHR 0x3A, CHR 0x20]"

text \<open>
  The two \<^verbatim>\<open>except\<close> clauses of \<^verbatim>\<open>load_data\<close>: \<^verbatim>\<open>BadZipFile\<close> and \<^verbatim>\<open>JSONDecodeError\<close>
  are raised again as \<^verbatim>\<open>ValueError\<close>, every other exception passes through, also the
  \<^verbatim>\<open>ValueError\<close> raised inside the \<^verbatim>\<open>try\<close> block.
\<close>

fun reraise :: "py_error \<Rightarrow> py_error" where
  "reraise (BadZipFile m) = ValueError msg_bad_zip"
| "reraise (JSONDecodeError m) = ValueError (msg_json_error @ m)"
| "reraise e = e"

text \<open>
  \<^verbatim>\<open>load_data\<close> returns the document or the exception, the object after the call and the
  lines printed.
\<close>

definition load_data ::
  "library \<Rightarrow> environment \<Rightarrow> analyzer \<Rightarrow> (py_error + json) \<times> analyzer \<times> log_line list" where
  "load_data lib env self =
     (if self_data self \<noteq> JNull then (Inr (self_data self), self, [])
      else if \<not> path_exists env
      then (Inl (FileNotFoundError (msg_not_found @ sop_file_path self)), self, [])
      else
        (case open_zip env of
           Inl e \<Rightarrow> (Inl (reraise e), self, [])
         | Inr sop_zip \<Rightarrow>
             (case filter (\<lambda>f. ends_with f ''.data'') (map fst sop_zip) of
                [] \<Rightarrow> (Inl (ValueError msg_no_data_file), self, [])
              | f # fs \<Rightarrow>
                  (case zip_read sop_zip f of
                     Inl e \<Rightarrow> (Inl (reraise e), self, [])
                   | Inr compressed_data \<Rightarrow>
                       (case decompress_data (zlib_decompress lib) compressed_data of
                          (printed, Inl e) \<Rightarrow> (Inl (reraise e), self, printed)
                        | (printed, Inr decompressed_data) \<Rightarrow>
                            (case utf8_decode lib decompressed_data of
                               Inl e \<Rightarrow> (Inl (reraise e), self, printed)
                             | Inr text \<Rightarrow>
                                 (case json_loads lib text of
                                    Inl e \<Rightarrow> (Inl (reraise e), self, printed)
                                  | Inr doc \<Rightarrow> (Inr doc, self\<lparr>self_data := doc\<rparr>, printed))))))))"

section \<open>Documents of the data model\<close>

text \<open>
  The statements below speak of a document as the data model has it: a mapping whose
  \<^verbatim>\<open>records\<close>, when present, is a list of mappings. \<open>records_of\<close> gives that list, and \<open>None\<close>
  for any other value.
\<close>

definition is_mapping :: "json \<Rightarrow> bool" where
  "is_mapping v = (case v of JObj d \<Rightarrow> True | _ \<Rightarrow> False)"

definition records_of :: "json \<Rightarrow> json list option" where
  "records_of data =
     (case data of
        JObj d \<Rightarrow>
          (case get_field d ''records'' (JArr []) of
             JArr rs \<Rightarrow> if list_all is_mapping rs then Some rs else None
           | _ \<Rightarrow> None)
      | _ \<Rightarrow> None)"

text \<open>A field of a record, \<open>None\<close> when the record does not have it.\<close>

definition record_field :: "json \<Rightarrow> string \<Rightarrow> json option" where
  "record_field r k = (case r of JObj d \<Rightarrow> map_of d k | _ \<Rightarrow> None)"

text \<open>The table name and the action of a record, with the defaults of the source.\<close>

definition table_name_of :: "json \<Rightarrow> json" where
  "table_name_of r = (case record_field r ''table_name'' of None \<Rightarrow> JStr ''unknown'' | Some v \<Rightarrow> v)"

definition action_of :: "json \<Rightarrow> json" where
  "action_of r = (case record_field r ''action'' of None \<Rightarrow> JStr ''unknown'' | Some v \<Rightarrow> v)"

definition hashable :: "json \<Rightarrow> bool" where
  "hashable v = (py_key v \<noteq> None)"

text \<open>
  The position at which a key first occurs in a list of values (the length of the list
  when it does not occur), and the number of its occurrences.
\<close>

definition first_pos :: "json \<Rightarrow> json list \<Rightarrow> nat" where
  "first_pos k ns = length (takeWhile (\<lambda>n. py_key n \<noteq> py_key k) ns)"

definition occurrences :: "json \<Rightarrow> json list \<Rightarrow> int" where
  "occurrences k ns = int (length (filter (\<lambda>n. py_key n = py_key k) ns))"

section \<open>Invariant of the table loop\<close>

text \<open>
  The keys of a dictionary, as Python compares them, in insertion order.
\<close>

definition keys_of :: "'v pydict \<Rightarrow> pykey option list" where
  "keys_of d = map (py_key \<circ> fst) d"

text \<open>
  What holds of \<^verbatim>\<open>tables\<close> after the loop of \<^verbatim>\<open>analyze_tables\<close> has read the records whose
  table names are \<open>ns\<close>: the keys are distinct, they are the names read, each count is the
  number of records read for its key, and the keys stand in the order in which they first
  occurred.
\<close>

definition tables_inv :: "table_data pydict \<Rightarrow> json list \<Rightarrow> bool" where
  "tables_inv T ns =
     (distinct (keys_of T) \<and> set (keys_of T) = py_key ` set ns \<and>
      (\<forall>entry\<in>set T. fst (snd entry) = occurrences (fst entry) ns) \<and>
      sorted_wrt (\<lambda>a b. first_pos a ns < first_pos b ns) (map fst T))"

section \<open>A model of inflate on stored blocks\<close>

text \<open>
  To run the decompressor on concrete bytes, the behaviour of \<^verbatim>\<open>zlib.decompress\<close> on them is
  needed. This section models it after RFC 1950 and RFC 1951, exactly for streams of stored
  blocks. A deflate stream is a sequence of blocks; the first byte of a block holds the
  final flag (bit 0) and the block type (bits 1 and 2). A stored block (type 0) continues
  at the next byte with the length, its one's complement (both 16 bits, low byte first) and
  that many bytes of data; type 3 is invalid. As long as only stored blocks were read, a
  block starts at a byte boundary. The decoding of a compressed block (types 1 and 2) is
  left to a parameter, which receives the input from the first byte of the block and the
  output so far, and gives what inflate gives from there on: the whole output and the
  input left after the stream, or the error.
\<close>

type_synonym block_decoder = "bytes \<Rightarrow> bytes \<Rightarrow> py_error + bytes \<times> bytes"

definition err_incomplete :: py_error where
  "err_incomplete = ZlibError ''Error -5 while decompressing data: incomplete or truncated stream''"

function inflate_blocks :: "block_decoder \<Rightarrow> bytes \<Rightarrow> bytes \<Rightarrow> py_error + bytes \<times> bytes" where
  "inflate_blocks compressed [] out = Inl err_incomplete"
| "inflate_blocks compressed (h # rest) out =
     (if unat h div 2 mod 4 = 0 then
        (case rest of
           l0 # l1 # n0 # n1 # body \<Rightarrow>
             (let len = unat l0 + 256 * unat l1; nlen = unat n0 + 256 * unat n1
              in if len + nlen \<noteq> 65535
                 then Inl (ZlibError ''Error -3 while decompressing data: invalid stored block lengths'')
                 else if length body < len then Inl err_incomplete
                 else if unat h mod 2 = 1 then Inr (out @ take len body, drop len body)
                 else inflate_blocks compressed (drop len body) (out @ take len body))
         | _ \<Rightarrow> Inl err_incomplete)
      else if unat h div 2 mod 4 = 3
      then Inl (ZlibError ''Error -3 while decompressing data: invalid block type'')
      else compressed (h # rest) out)"
  by pat_completeness auto
termination
  by (relation "measure (\<lambda>(c, input, out). length input)") auto

text \<open>
  The Adler-32 checksum of the output, as its two 16-bit halves, and the four bytes that
  end a zlib stream: the high half first, each half high byte first.
\<close>

definition adler32 :: "bytes \<Rightarrow> nat \<times> nat" where
  "adler32 data =
     foldl (\<lambda>(a, b) x. ((a + unat x) mod 65521, (b + (a + unat x) mod 65521) mod 65521))
       (1, 0) data"

definition adler32_bytes :: "bytes \<Rightarrow> bytes" where
  "adler32_bytes data =
     (case adler32 data of
        (a, b) \<Rightarrow> [of_nat (b div 256), of_nat (b mod 256), of_nat (a div 256), of_nat (a mod 256)])"

text \<open>
  A zlib stream: two header bytes (their 16-bit value a multiple of 31, method 8, window
  size at most 7, no preset dictionary), the deflate stream and the checksum. The checks
  come in the order in which inflate makes them.
\<close>

definition zlib_inflate :: "block_decoder \<Rightarrow> bytes \<Rightarrow> py_error + bytes" where
  "zlib_inflate compressed data =
     (case data of
        cmf # flg # rest \<Rightarrow>
          if (256 * unat cmf + unat flg) mod 31 \<noteq> 0
          then Inl (ZlibError ''Error -3 while decompressing data: incorrect header check'')
          else if unat cmf mod 16 \<noteq> 8
          then Inl (ZlibError ''Error -3 while decompressing data: unknown compression method'')
          else if unat cmf div 16 > 7
          then Inl (ZlibError ''Error -3 while decompressing data: invalid window size'')
          else if unat flg div 32 mod 2 = 1
          then Inl (ZlibError ''Error 2 while decompressing data'')
          else
            (case inflate_blocks compressed rest [] of
               Inl e \<Rightarrow> Inl e
             | Inr (out, trailer) \<Rightarrow>
                 if length trailer < 4 then Inl err_incomplete
                 else if take 4 trailer \<noteq> adler32_bytes out
                 then Inl (ZlibError ''Error -3 while decompressing data: incorrect data check'')
                 else Inr out)
      | _ \<Rightarrow> Inl err_incomplete)"

text \<open>
  The bytes begin with a zlib header: the first two bytes pass the four checks that
  \<open>zlib_inflate\<close> makes before it reads a block.
\<close>

definition zlib_header :: "bytes \<Rightarrow> bool" where
  "zlib_header data =
     (case data of
        cmf # flg # rest \<Rightarrow>
          (256 * unat cmf + unat flg) mod 31 = 0 \<and> unat cmf mod 16 = 8 \<and>
          unat cmf div 16 \<le> 7 \<and> unat flg div 32 mod 2 = 0
      | _ \<Rightarrow> False)"

text \<open>
  \<^verbatim>\<open>zlib.decompress(data, wbits)\<close>: a raw deflate stream for \<open>wbits = -15\<close>, a zlib stream for
  \<open>wbits = 15\<close>; input left after the end of the stream is ignored. The other window
  arguments (the gzip detection of \<open>15 + 32\<close>) are left to a second parameter.
\<close>

definition zlib_model :: "block_decoder \<Rightarrow> inflate \<Rightarrow> inflate" where
  "zlib_model compressed other data wbits =
     (if wbits = - 15 then
        (case inflate_blocks compressed data [] of
           Inl e \<Rightarrow> Inl e
         | Inr (out, unused) \<Rightarrow> Inr out)
      else if wbits = 15 then zlib_inflate compressed data
      else other data wbits)"

section \<open>Example inputs\<close>

text \<open>
  Concrete behaviours of the library and of the file system, used to instantiate the
  theorems. \<open>example_zlib\<close> is the model of the previous section, where a compressed block is
  an error and the gzip detection rejects its input, for the reason zlib gives when the
  input is the synthetic gzip header followed by zero bytes or by the byte \<open>FF\<close>.
  \<open>null_stream\<close> and \<open>empty_object_stream\<close> are raw deflate streams of one stored block, of
  the text \<^verbatim>\<open>null\<close> and of the text \<^verbatim>\<open>{}\<close>. The decoder and the parser of \<open>example_library\<close>
  know these two texts, which parse to \<^verbatim>\<open>None\<close> and to the empty dictionary.
\<close>

definition no_compressed_blocks :: block_decoder where
  "no_compressed_blocks input out = Inl (ZlibError ''compressed block'')"

definition example_gzip_inflate :: inflate where
  "example_gzip_inflate data wbits =
     (if data = gzip_header @ [0x00, 0x00, 0x00, 0x00, 0x00, 0x00, 0x00, 0x00]
      then Inl (ZlibError ''Error -3 while decompressing data: invalid stored block lengths'')
      else Inl (ZlibError ''Error -3 while decompressing data: invalid block type''))"

definition example_zlib :: inflate where
  "example_zlib = zlib_model no_compressed_blocks example_gzip_inflate"

definition null_stream :: bytes where
  "null_stream = [0x01, 0x04, 0x00, 0xFB, 0xFF, 0x6E, 0x75, 0x6C, 0x6C]"

definition empty_object_stream :: bytes where
  "empty_object_stream = [0x01, 0x02, 0x00, 0xFD, 0xFF, 0x7B, 0x7D]"

definition example_library :: library where
  "example_library =
     \<lparr>zlib_decompress = example_zlib,
      utf8_decode = (\<lambda>b.
          if b = [0x6E, 0x75, 0x6C, 0x6C] then Inr ''null''
          else if b = [0x7B, 0x7D] then Inr ''{}''
          else Inl (UnicodeDecodeError ''invalid start byte'')),
      json_loads = (\<lambda>s.
          if s = ''null'' then Inr JNull
          else if s = ''{}'' then Inr (JObj [])
          else Inl (JSONDecodeError ''Expecting value''))\<rparr>"

definition null_archive :: environment where
  "null_archive = \<lparr>path_exists = True, open_zip = Inr [(''package.data'', Inr null_stream)]\<rparr>"

definition empty_object_archive :: environment where
  "empty_object_archive =
     \<lparr>path_exists = True, open_zip = Inr [(''package.data'', Inr empty_object_stream)]\<rparr>"

definition no_data_archive :: environment where
  "no_data_archive = \<lparr>path_exists = True, open_zip = Inr [(''readme.txt'', Inr [])]\<rparr>"

definition no_file :: environment where
  "no_file = \<lparr>path_exists = False, open_zip = Inl (FileNotFoundError [])\<rparr>"

text \<open>
  The document of the concrete scenario of the specification, with its records; and a
  document whose records lack a table name, an action or both.
\<close>

definition example_document :: json where
  "example_document =
     JObj [(''records'', JArr
       [JObj [(''table_name'', JStr ''users''), (''action'', JStr ''insert'')],
        JObj [(''table_name'', JStr ''users''), (''action'', JStr ''delete'')],
        JObj [(''table_name'', JStr ''products''), (''action'', JStr ''update''),
              (''is_strong_overwrite'', JBool True)],
        JObj [(''table_name'', JStr ''orders''), (''action'', JStr ''insert'')]])]"

definition example_records :: "json list" where
  "example_records =
       [JObj [(''table_name'', JStr ''users''), (''action'', JStr ''insert'')],
        JObj [(''table_name'', JStr ''users''), (''action'', JStr ''delete'')],
        JObj [(''table_name'', JStr ''products''), (''action'', JStr ''update''),
              (''is_strong_overwrite'', JBool True)],
        JObj [(''table_name'', JStr ''orders''), (''action'', JStr ''insert'')]]"

definition sparse_records :: "json list" where
  "sparse_records =
     [JObj [], JObj [(''table_name'', JStr ''users'')], JObj [(''action'', JNull)]]"

definition sparse_document :: json where
  "sparse_document = JObj [(''name'', JStr ''sparse''), (''records'', JArr sparse_records)]"

text \<open>
  A document with one long name, serialised: the 65278 bytes of the JSON text
  \<^verbatim>\<open>{"name": "x...xA.<@x...x"}\<close>, where 245 letters \<^verbatim>\<open>x\<close> stand before the \<^verbatim>\<open>A\<close>, the dot
  is the letter U+00FF (the bytes \<open>C3 BF\<close>) and 65016 letters \<^verbatim>\<open>x\<close> follow the \<^verbatim>\<open>@\<close>.
  \<open>level0_stream\<close> is its zlib stream without compression: the header \<open>78 01\<close>, one final
  stored block of length \<open>FEFE\<close> and the Adler-32 checksum of the text. \<open>misread_text\<close> is what the same bytes
  hold when read as a raw deflate stream.
\<close>

definition json_head :: bytes where
  "json_head = [0x7B, 0x22, 0x6E, 0x61, 0x6D, 0x65, 0x22, 0x3A, 0x20, 0x22] @ replicate 245 0x78"

definition json_tail :: bytes where
  "json_tail = [0x41, 0xC3, 0xBF, 0x3C, 0x40] @ replicate 65016 0x78 @ [0x22, 0x7D]"

definition json_text :: bytes where
  "json_text = json_head @ json_tail"

definition level0_stream :: bytes where
  "level0_stream =
     [0x78, 0x01, 0x01, 0xFE, 0xFE, 0x01, 0x01] @ json_text @ [0xD0, 0x96, 0x8B, 0xCC]"

definition misread_text :: bytes where
  "misread_text = [0x01, 0x01] @ json_head @ replicate 49091 0x78"

definition level0_archive :: environment where
  "level0_archive = \<lparr>path_exists = True, open_zip = Inr [(''package.data'', Inr level0_stream)]\<rparr>"

text \<open>
  A sequence of 65550 bytes that is a raw deflate stream of three stored blocks and, read
  from its first byte, also a zlib stream of two stored blocks.
\<close>

definition polyglot_payload :: bytes where
  "polyglot_payload = [0x00, 0x00, 0xFF, 0xFF, 0x01, 0xFE, 0xFF, 0x01, 0x00] @ replicate 65525 0x00"

definition polyglot :: bytes where
  "polyglot =
     [0x78, 0x01, 0x00, 0xFE, 0xFF, 0x01, 0x00] @ polyglot_payload @
     [0x01, 0x00, 0x00, 0xFF, 0xFF] @ [0x23, 0xF0, 0x03, 0xFE]"

definition polyglot_raw_output :: bytes where
  "polyglot_raw_output =
     [0x01] @ replicate 65525 0x00 @ [0x01, 0x00, 0x00, 0xFF, 0xFF] @ [0x23, 0xF0, 0x03, 0xFE]"

section \<open>Properties of the record statistics\<close>

lemma get_field_eq_iff:
  "v \<noteq> dflt \<Longrightarrow> get_field d k dflt = v \<longleftrightarrow> map_of d k = Some v"
  by (auto simp: get_field_def split: option.splits)

lemma records_of_SomeD:
  "records_of data = Some rs \<Longrightarrow>
   \<exists>d. data = JObj d \<and> get_field d ''records'' (JArr []) = JArr rs \<and> list_all is_mapping rs"
  by (auto simp: records_of_def split: json.splits if_splits)

lemma records_loop_counts:
  "list_all is_mapping rs \<Longrightarrow>
   records_loop rs stats =
     Inr (stats\<lparr>deletes := deletes stats +
                   int (length (filter (\<lambda>r. record_field r ''action'' = Some (JStr ''delete'')) rs)),
                 strong_overwrites := strong_overwrites stats +
                   int (length (filter (\<lambda>r. record_field r ''is_strong_overwrite'' = Some (JBool True)) rs))\<rparr>)"
proof (induction rs arbitrary: stats)
  case Nil
  then show ?case by simp
next
  case (Cons r rs)
  from Cons.prems obtain d where r: "r = JObj d"
    by (cases r) (auto simp: is_mapping_def)
  from Cons.prems have rest: "list_all is_mapping rs" by simp
  show ?case
    unfolding r
    by (simp add: Cons.IH [OF rest] get_field_eq_iff record_field_def)
qed

lemma analyze_records_counts:
  assumes "records_of data = Some rs"
  shows "analyze_records data =
           Inr \<lparr>total = int (length rs),
                deletes = int (length (filter (\<lambda>r. record_field r ''action'' = Some (JStr ''delete'')) rs)),
                strong_overwrites =
                  int (length (filter (\<lambda>r. record_field r ''is_strong_overwrite'' = Some (JBool True)) rs))\<rparr>"
proof -
  from records_of_SomeD [OF assms] obtain d where
    d: "data = JObj d" "get_field d ''records'' (JArr []) = JArr rs" "list_all is_mapping rs"
    by blast
  show ?thesis
    by (simp add: analyze_records_def d py_len_def records_loop_counts)
qed

text \<open>
  Claim C3. On every document, \<^verbatim>\<open>analyze_records\<close> returns, and its strong-overwrite count
  is the number of records whose \<^verbatim>\<open>is_strong_overwrite\<close> field is the boolean true. The
  test is exact: a document whose only record carries the string \<^verbatim>\<open>"true"\<close> has the count 0.
\<close>

theorem strong_overwrites_exact:
  assumes "records_of data = Some rs"
  shows "(\<exists>stats. analyze_records data = Inr stats \<and>
            strong_overwrites stats =
              int (length (filter (\<lambda>r. record_field r ''is_strong_overwrite'' = Some (JBool True)) rs))) \<and>
         analyze_records (JObj [(''records'', JArr [JObj [(''is_strong_overwrite'', JStr ''true'')]])]) =
           Inr \<lparr>total = 1, deletes = 0, strong_overwrites = 0\<rparr>"
proof
  show "\<exists>stats. analyze_records data = Inr stats \<and>
          strong_overwrites stats =
            int (length (filter (\<lambda>r. record_field r ''is_strong_overwrite'' = Some (JBool True)) rs))"
    by (simp add: analyze_records_counts [OF assms])
  show "analyze_records (JObj [(''records'', JArr [JObj [(''is_strong_overwrite'', JStr ''true'')]])]) =
          Inr \<lparr>total = 1, deletes = 0, strong_overwrites = 0\<rparr>"
    by (simp add: analyze_records_def get_field_def py_len_def)
qed

theorem strong_overwrites_exact_witness:
  "records_of (JObj [(''records'',
       JArr [JObj [(''is_strong_overwrite'', JBool True)],
             JObj [(''is_strong_overwrite'', JStr ''true'')],
             JObj [(''action'', JStr ''delete'')]])]) =
     Some [JObj [(''is_strong_overwrite'', JBool True)],
           JObj [(''is_strong_overwrite'', JStr ''true'')],
           JObj [(''action'', JStr ''delete'')]] \<and>
   (\<exists>stats. analyze_records (JObj [(''records'',
       JArr [JObj [(''is_strong_overwrite'', JBool True)],
             JObj [(''is_strong_overwrite'', JStr ''true'')],
             JObj [(''action'', JStr ''delete'')]])]) = Inr stats \<and>
      strong_overwrites stats = 1)"
proof -
  have h: "records_of (JObj [(''records'',
       JArr [JObj [(''is_strong_overwrite'', JBool True)],
             JObj [(''is_strong_overwrite'', JStr ''true'')],
             JObj [(''action'', JStr ''delete'')]])]) =
     Some [JObj [(''is_strong_overwrite'', JBool True)],
           JObj [(''is_strong_overwrite'', JStr ''true'')],
           JObj [(''action'', JStr ''delete'')]]"
    by (simp add: records_of_def get_field_def is_mapping_def)
  from strong_overwrites_exact [OF h] show ?thesis
    using h by (simp add: record_field_def)
qed

section \<open>Properties of the decompressor\<close>

lemma decompress_data_cases:
  "decompress_data zd data =
     (case try_raw_deflate zd data of
        Inr r \<Rightarrow> ([Succeeded ''_try_raw_deflate''], Inr r)
      | Inl e1 \<Rightarrow>
          (case try_zlib_deflate zd data of
             Inr r \<Rightarrow> ([Failed ''_try_raw_deflate'' e1, Succeeded ''_try_zlib_deflate''], Inr r)
           | Inl e2 \<Rightarrow>
               (case try_gzip_format zd data of
                  Inr r \<Rightarrow>
                    ([Failed ''_try_raw_deflate'' e1, Failed ''_try_zlib_deflate'' e2,
                      Succeeded ''_try_gzip_format''], Inr r)
                | Inl e3 \<Rightarrow>
                    (case try_with_headers zd data of
                       Inr r \<Rightarrow>
                         ([Failed ''_try_raw_deflate'' e1, Failed ''_try_zlib_deflate'' e2,
                           Failed ''_try_gzip_format'' e3, Succeeded ''_try_with_headers''], Inr r)
                     | Inl e4 \<Rightarrow>
                         ([Failed ''_try_raw_deflate'' e1, Failed ''_try_zlib_deflate'' e2,
                           Failed ''_try_gzip_format'' e3, Failed ''_try_with_headers'' e4],
                          Inl (ValueError msg_exhausted))))))"
  by (simp add: decompress_data_def methods_def split: sum.splits)

lemmas strategy_defs =
  try_raw_deflate_def try_zlib_deflate_def try_gzip_format_def try_with_headers_def
  headers_to_try_def gzip_header_def

text \<open>
  Claim C1. Whatever inflate does, the decompressor calls the four strategies in the order
  raw inflate, zlib-wrapped inflate, synthetic gzip wrap, header-guess fallback, and stops
  at the first that returns: its result is that strategy's output, and the printed lines
  show one failure for each strategy before it and no call after it.
\<close>

theorem decompress_first_success:
  "decompress_data zd data =
     (case try_raw_deflate zd data of
        Inr r \<Rightarrow> ([Succeeded ''_try_raw_deflate''], Inr r)
      | Inl e1 \<Rightarrow>
          (case try_zlib_deflate zd data of
             Inr r \<Rightarrow> ([Failed ''_try_raw_deflate'' e1, Succeeded ''_try_zlib_deflate''], Inr r)
           | Inl e2 \<Rightarrow>
               (case try_gzip_format zd data of
                  Inr r \<Rightarrow>
                    ([Failed ''_try_raw_deflate'' e1, Failed ''_try_zlib_deflate'' e2,
                      Succeeded ''_try_gzip_format''], Inr r)
                | Inl e3 \<Rightarrow>
                    (case try_with_headers zd data of
                       Inr r \<Rightarrow>
                         ([Failed ''_try_raw_deflate'' e1, Failed ''_try_zlib_deflate'' e2,
                           Failed ''_try_gzip_format'' e3, Succeeded ''_try_with_headers''], Inr r)
                     | Inl e4 \<Rightarrow>
                         ([Failed ''_try_raw_deflate'' e1, Failed ''_try_zlib_deflate'' e2,
                           Failed ''_try_gzip_format'' e3, Failed ''_try_with_headers'' e4],
                          Inl (ValueError msg_exhausted))))))"
  by (rule decompress_data_cases)

text \<open>
  Claim C8, as stated, fails: the exception raised when every strategy failed is a
  \<^verbatim>\<open>ValueError\<close> with one fixed message, and carries no reason. On the empty input and on the
  byte \<open>0xFF\<close> the strategies fail for different reasons, and the exception is the same.
\<close>

theorem exhaustion_reasons_counterexample:
  "decompress_data example_zlib [] =
     ([Failed ''_try_raw_deflate'' (ZlibError ''Error -5 while decompressing data: incomplete or truncated stream''),
       Failed ''_try_zlib_deflate'' (ZlibError ''Error -5 while decompressing data: incomplete or truncated stream''),
       Failed ''_try_gzip_format'' (ZlibError ''Error -3 while decompressing data: invalid stored block lengths''),
       Failed ''_try_with_headers'' (ValueError msg_headers_failed)],
      Inl (ValueError msg_exhausted)) \<and>
   decompress_data example_zlib [0xFF] =
     ([Failed ''_try_raw_deflate'' (ZlibError ''Error -3 while decompressing data: invalid block type''),
       Failed ''_try_zlib_deflate'' (ZlibError ''Error -5 while decompressing data: incomplete or truncated stream''),
       Failed ''_try_gzip_format'' (ZlibError ''Error -3 while decompressing data: invalid block type''),
       Failed ''_try_with_headers'' (ValueError msg_headers_failed)],
      Inl (ValueError msg_exhausted))"
  by (simp add: decompress_data_cases strategy_defs example_zlib_def zlib_model_def
      zlib_inflate_def example_gzip_inflate_def err_incomplete_def upt_rec)

text \<open>
  Claim C8, amended. When every strategy fails, the decompressor raises one
  \<^verbatim>\<open>ValueError\<close> with a fixed message; no strategy's exception reaches the caller, each is
  caught and printed in its strategy's line.
\<close>

theorem exhaustion_error:
  assumes "try_raw_deflate zd data = Inl e1" and "try_zlib_deflate zd data = Inl e2"
    and "try_gzip_format zd data = Inl e3" and "try_with_headers zd data = Inl e4"
  shows "decompress_data zd data =
           ([Failed ''_try_raw_deflate'' e1, Failed ''_try_zlib_deflate'' e2,
             Failed ''_try_gzip_format'' e3, Failed ''_try_with_headers'' e4],
            Inl (ValueError msg_exhausted))"
  by (simp add: decompress_data_cases assms)

theorem exhaustion_error_witness:
  "try_raw_deflate example_zlib [] = Inl (ZlibError ''Error -5 while decompressing data: incomplete or truncated stream'') \<and>
   try_zlib_deflate example_zlib [] = Inl (ZlibError ''Error -5 while decompressing data: incomplete or truncated stream'') \<and>
   try_gzip_format example_zlib [] = Inl (ZlibError ''Error -3 while decompressing data: invalid stored block lengths'') \<and>
   try_with_headers example_zlib [] = Inl (ValueError msg_headers_failed) \<and>
   decompress_data example_zlib [] =
     ([Failed ''_try_raw_deflate'' (ZlibError ''Error -5 while decompressing data: incomplete or truncated stream''),
       Failed ''_try_zlib_deflate'' (ZlibError ''Error -5 while decompressing data: incomplete or truncated stream''),
       Failed ''_try_gzip_format'' (ZlibError ''Error -3 while decompressing data: invalid stored block lengths''),
       Failed ''_try_with_headers'' (ValueError msg_headers_failed)],
      Inl (ValueError msg_exhausted))"
proof -
  have h1: "try_raw_deflate example_zlib [] = Inl (ZlibError ''Error -5 while decompressing data: incomplete or truncated stream'')"
    by (simp add: strategy_defs example_zlib_def zlib_model_def err_incomplete_def)
  have h2: "try_zlib_deflate example_zlib [] = Inl (ZlibError ''Error -5 while decompressing data: incomplete or truncated stream'')"
    by (simp add: strategy_defs example_zlib_def zlib_model_def zlib_inflate_def err_incomplete_def)
  have h3: "try_gzip_format example_zlib [] = Inl (ZlibError ''Error -3 while decompressing data: invalid stored block lengths'')"
    by (simp add: strategy_defs example_zlib_def zlib_model_def example_gzip_inflate_def)
  have h4: "try_with_headers example_zlib [] = Inl (ValueError msg_headers_failed)"
    by (simp add: strategy_defs example_zlib_def zlib_model_def zlib_inflate_def)
  from exhaustion_error [OF h1 h2 h3 h4] h1 h2 h3 h4 show ?thesis
    by simp
qed

section \<open>Properties of the metadata\<close>

text \<open>
  Claim C9, as stated, fails: on a document without a \<^verbatim>\<open>name\<close> field the name returned is
  the Cyrillic default, not the string \<^verbatim>\<open>unknown\<close>.
\<close>

theorem metadata_default_name_counterexample:
  "get_metadata (JObj []) =
     Inr [(''name'', JStr default_unknown),
          (''pack_application_id'', JStr default_unknown),
          (''timestamp'', JNull),
          (''version'', JStr default_unknown)] \<and>
   JStr default_unknown \<noteq> JStr ''unknown''"
  by (simp add: get_metadata_def get_field_def default_unknown_def)

text \<open>
  Claim C9, amended. For every document that is a mapping without a \<^verbatim>\<open>name\<close> field,
  \<^verbatim>\<open>get_metadata\<close> returns as the name the default of the source, the ten Cyrillic letters
  whose UTF-8 encoding is the twenty bytes below.
\<close>

theorem metadata_default_name:
  assumes "map_of d ''name'' = None"
  shows "(\<exists>m. get_metadata (JObj d) = Inr m \<and> map_of m ''name'' = Some (JStr default_unknown)) \<and>
         default_unknown =
           [CHR 0xD0, CHR 0x9D, CHR 0xD0, CHR 0xB5, CHR 0xD0, CHR 0xB8, CHR 0xD0, CHR 0xB7,
            CHR 0xD0, CHR 0xB2, CHR 0xD0, CHR 0xB5, CHR 0xD1, CHR 0x81, CHR 0xD1, CHR 0x82,
            CHR 0xD0, CHR 0xBD, CHR 0xD0, CHR 0xBE]"
  using assms by (simp add: get_metadata_def get_field_def default_unknown_def)

theorem metadata_default_name_witness:
  "map_of [(''version'', JStr ''1.0'')] ''name'' = None \<and>
   (\<exists>m. get_metadata (JObj [(''version'', JStr ''1.0'')]) = Inr m \<and>
        map_of m ''name'' = Some (JStr default_unknown))"
proof -
  have h: "map_of [(''version'', JStr ''1.0'')] ''name'' = None"
    by simp
  from metadata_default_name [OF h] h show ?thesis
    by blast
qed

section \<open>The decompressor on concrete streams\<close>

lemma inflate_blocks_stored_more:
  assumes "unat h div 2 mod 4 = 0" and "unat h mod 2 = 0"
    and "unat l0 + 256 * unat l1 + (unat n0 + 256 * unat n1) = 65535"
    and "unat l0 + 256 * unat l1 \<le> length body"
  shows "inflate_blocks c (h # l0 # l1 # n0 # n1 # body) out =
           inflate_blocks c (drop (unat l0 + 256 * unat l1) body)
             (out @ take (unat l0 + 256 * unat l1) body)"
  using assms by (simp add: Let_def)

lemma inflate_blocks_stored_final:
  assumes "unat h div 2 mod 4 = 0" and "unat h mod 2 = 1"
    and "unat l0 + 256 * unat l1 + (unat n0 + 256 * unat n1) = 65535"
    and "unat l0 + 256 * unat l1 \<le> length body"
  shows "inflate_blocks c (h # l0 # l1 # n0 # n1 # body) out =
           Inr (out @ take (unat l0 + 256 * unat l1) body, drop (unat l0 + 256 * unat l1) body)"
  using assms by (simp add: Let_def)

lemma length_adler32_bytes: "length (adler32_bytes data) = 4"
  by (simp add: adler32_bytes_def split: prod.splits)

lemma null_stream_raw:
  "zlib_model c other null_stream (- 15) = Inr [0x6E, 0x75, 0x6C, 0x6C]"
  by (simp add: zlib_model_def null_stream_def Let_def)

lemma empty_object_stream_raw:
  "zlib_model c other empty_object_stream (- 15) = Inr [0x7B, 0x7D]"
  by (simp add: zlib_model_def empty_object_stream_def Let_def)

lemma null_stream_zlib:
  "zlib_model c other null_stream 15 =
     Inl (ZlibError ''Error -3 while decompressing data: incorrect header check'')"
  by (simp add: zlib_model_def zlib_inflate_def null_stream_def)

lemma length_json_head: "length json_head = 255"
  by (simp add: json_head_def)

lemma length_json_tail: "length json_tail = 65023"
  by (simp add: json_tail_def)

lemma length_json_text: "length json_text = 65278"
  by (simp add: json_text_def length_json_head length_json_tail)

lemma adler32_replicate:
  "a < 65521 \<Longrightarrow> b < 65521 \<Longrightarrow>
   foldl (\<lambda>(a, b) x. ((a + unat x) mod 65521, (b + (a + unat x) mod 65521) mod 65521))
     (a, b) (replicate n x) =
   ((a + n * unat x) mod 65521, (b + n * a + unat x * (\<Sum>i\<le>n. i)) mod 65521)"
proof (induction n arbitrary: a b)
  case 0
  then show ?case by simp
next
  case (Suc n)
  let ?a = "(a + unat x) mod 65521"
  let ?b = "(b + ?a) mod 65521"
  have "?a < 65521" "?b < 65521" by simp_all
  from Suc.IH [OF this]
  have "foldl (\<lambda>(a, b) x. ((a + unat x) mod 65521, (b + (a + unat x) mod 65521) mod 65521))
          (?a, ?b) (replicate n x) =
        ((?a + n * unat x) mod 65521, (?b + n * ?a + unat x * (\<Sum>i\<le>n. i)) mod 65521)" .
  moreover have "(?a + n * unat x) mod 65521 = (a + Suc n * unat x) mod 65521"
    by (simp add: mod_simps algebra_simps)
  moreover have "(?b + n * ?a + unat x * (\<Sum>i\<le>n. i)) mod 65521 =
                 (b + Suc n * a + unat x * (\<Sum>i\<le>Suc n. i)) mod 65521"
  proof -
    have 1: "?b mod 65521 = (b + (a + unat x)) mod 65521"
      by (simp add: mod_simps)
    have 2: "(n * ?a) mod 65521 = (n * (a + unat x)) mod 65521"
      by (rule mod_mult_right_eq)
    have "(?b + n * ?a) mod 65521 = ((b + (a + unat x)) + n * (a + unat x)) mod 65521"
      using 1 2 by (rule mod_add_cong)
    then have "(?b + n * ?a + unat x * (\<Sum>i\<le>n. i)) mod 65521 =
          ((b + (a + unat x)) + n * (a + unat x) + unat x * (\<Sum>i\<le>n. i)) mod 65521"
      by (rule mod_add_cong) simp
    also have "(b + (a + unat x)) + n * (a + unat x) + unat x * (\<Sum>i\<le>n. i) =
               b + Suc n * a + unat x * (\<Sum>i\<le>Suc n. i)"
      by (simp add: algebra_simps)
    finally show ?thesis .
  qed
  ultimately show ?case by simp
qed

lemma sum_upto_closed: "(\<Sum>i\<le>n. i) = n * (n + 1) div 2" for n :: nat
  by (induction n) auto

lemma adler_json_text: "adler32_bytes json_text = [0xD0, 0x96, 0x8B, 0xCC]"
  by (simp add: adler32_bytes_def adler32_def json_text_def json_head_def json_tail_def
      adler32_replicate sum_upto_closed)

lemma adler_polyglot: "adler32_bytes polyglot_payload = [0x23, 0xF0, 0x03, 0xFE]"
  by (simp add: adler32_bytes_def adler32_def polyglot_payload_def adler32_replicate sum_upto_closed)

lemma level0_stream_eq:
  "level0_stream =
     [0x78, 0x01, 0x01, 0xFE, 0xFE, 0x01, 0x01] @ json_text @ adler32_bytes json_text"
  by (simp add: level0_stream_def adler_json_text)

lemma polyglot_eq:
  "polyglot =
     [0x78, 0x01, 0x00, 0xFE, 0xFF, 0x01, 0x00] @ polyglot_payload @
     [0x01, 0x00, 0x00, 0xFF, 0xFF] @ adler32_bytes polyglot_payload"
  by (simp add: polyglot_def adler_polyglot)

lemma polyglot_raw_output_eq:
  "polyglot_raw_output =
     [0x01] @ replicate 65525 0x00 @ [0x01, 0x00, 0x00, 0xFF, 0xFF] @
     adler32_bytes polyglot_payload"
  by (simp add: polyglot_raw_output_def adler_polyglot)

lemma raw_first_block:
  "inflate_blocks c level0_stream [] =
     inflate_blocks c (json_tail @ adler32_bytes json_text) ([0x01, 0x01] @ json_head)"
proof -
  have "inflate_blocks c (0x78 # 0x01 # 0x01 # 0xFE # 0xFE # ([0x01, 0x01] @ json_head @ json_tail @ adler32_bytes json_text)) [] =
        inflate_blocks c (drop (unat (0x01 :: 8 word) + 256 * unat (0x01 :: 8 word)) ([0x01, 0x01] @ json_head @ json_tail @ adler32_bytes json_text))
          ([] @ take (unat (0x01 :: 8 word) + 256 * unat (0x01 :: 8 word)) ([0x01, 0x01] @ json_head @ json_tail @ adler32_bytes json_text))"
    by (rule inflate_blocks_stored_more) (simp_all add: length_json_head)
  then show ?thesis
    by (simp add: level0_stream_eq json_text_def length_json_head)
qed

lemma raw_second_block:
  "inflate_blocks c (json_tail @ adler32_bytes json_text) out =
     Inr (out @ replicate 49091 0x78, replicate 15925 0x78 @ [0x22, 0x7D] @ adler32_bytes json_text)"
proof -
  let ?body = "replicate 65016 (0x78 :: 8 word) @ [0x22, 0x7D] @ adler32_bytes json_text"
  have "inflate_blocks c (0x41 # 0xC3 # 0xBF # 0x3C # 0x40 # ?body) out =
        Inr (out @ take (unat (0xC3 :: 8 word) + 256 * unat (0xBF :: 8 word)) ?body,
             drop (unat (0xC3 :: 8 word) + 256 * unat (0xBF :: 8 word)) ?body)"
    by (rule inflate_blocks_stored_final) simp_all
  then show ?thesis
    by (simp add: json_tail_def)
qed

lemma raw_level0: "zlib_model c other level0_stream (- 15) = Inr misread_text"
  by (simp add: zlib_model_def raw_first_block raw_second_block misread_text_def)

lemma zlib_level0: "zlib_model c other level0_stream 15 = Inr json_text"
proof -
  let ?body = "json_text @ adler32_bytes json_text"
  have "inflate_blocks c (0x01 # 0xFE # 0xFE # 0x01 # 0x01 # ?body) [] =
        Inr ([] @ take (unat (0xFE :: 8 word) + 256 * unat (0xFE :: 8 word)) ?body,
             drop (unat (0xFE :: 8 word) + 256 * unat (0xFE :: 8 word)) ?body)"
    by (rule inflate_blocks_stored_final) (simp_all add: length_json_text)
  then have "inflate_blocks c (0x01 # 0xFE # 0xFE # 0x01 # 0x01 # ?body) [] =
        Inr (json_text, adler32_bytes json_text)"
    by (simp add: length_json_text)
  then show ?thesis
    by (simp add: zlib_model_def zlib_inflate_def level0_stream_eq length_adler32_bytes)
qed

lemma misread_differs: "misread_text \<noteq> json_text"
  by (simp add: misread_text_def json_text_def json_head_def)

lemma decompress_level0:
  "decompress_data (zlib_model c other) level0_stream =
     ([Succeeded ''_try_raw_deflate''], Inr misread_text)"
  by (simp add: decompress_data_cases try_raw_deflate_def raw_level0)

lemma load_level0:
  "load_data \<lparr>zlib_decompress = zlib_model c other, utf8_decode = decode, json_loads = loads\<rparr>
     level0_archive (init path) =
   (case decode misread_text of
      Inl e \<Rightarrow> (Inl (reraise e), init path, [Succeeded ''_try_raw_deflate''])
    | Inr text \<Rightarrow>
        (case loads text of
           Inl e \<Rightarrow> (Inl (reraise e), init path, [Succeeded ''_try_raw_deflate''])
         | Inr doc \<Rightarrow> (Inr doc, (init path)\<lparr>self_data := doc\<rparr>, [Succeeded ''_try_raw_deflate''])))"
  by (simp add: load_data_def level0_archive_def init_def ends_with_def zip_read_def
      decompress_level0 split: sum.splits)

lemma length_polyglot_payload: "length polyglot_payload = 65534"
  by (simp add: polyglot_payload_def)

lemma polyglot_raw:
  "inflate_blocks c polyglot [] = Inr (polyglot_raw_output, [])"
proof -
  let ?t = "[0x01, 0x00, 0x00, 0xFF, 0xFF] @ adler32_bytes polyglot_payload"
  let ?b3 = "replicate 65525 (0x00 :: 8 word) @ ?t"
  let ?b2 = "0x01 # 0xFE # 0xFF # 0x01 # 0x00 # ?b3"
  let ?b1 = "0x01 # 0x00 # 0x00 # 0x00 # 0xFF # 0xFF # ?b2"
  have 1: "inflate_blocks c (0x78 # 0x01 # 0x00 # 0xFE # 0xFF # ?b1) [] =
           inflate_blocks c (drop (unat (0x01 :: 8 word) + 256 * unat (0x00 :: 8 word)) ?b1)
             ([] @ take (unat (0x01 :: 8 word) + 256 * unat (0x00 :: 8 word)) ?b1)"
    by (rule inflate_blocks_stored_more) simp_all
  have 2: "inflate_blocks c (0x00 # 0x00 # 0x00 # 0xFF # 0xFF # ?b2) [0x01] =
           inflate_blocks c (drop (unat (0x00 :: 8 word) + 256 * unat (0x00 :: 8 word)) ?b2)
             ([0x01] @ take (unat (0x00 :: 8 word) + 256 * unat (0x00 :: 8 word)) ?b2)"
    by (rule inflate_blocks_stored_more) simp_all
  have 3: "inflate_blocks c (0x01 # 0xFE # 0xFF # 0x01 # 0x00 # ?b3) [0x01] =
           Inr ([0x01] @ take (unat (0xFE :: 8 word) + 256 * unat (0xFF :: 8 word)) ?b3,
                drop (unat (0xFE :: 8 word) + 256 * unat (0xFF :: 8 word)) ?b3)"
    by (rule inflate_blocks_stored_final) (simp_all add: length_adler32_bytes)
  have "inflate_blocks c (0x78 # 0x01 # 0x00 # 0xFE # 0xFF # ?b1) [] =
          Inr ([0x01] @ ?b3, [])"
    using 1 2 3 by (simp add: length_adler32_bytes)
  then show ?thesis
    by (simp add: polyglot_eq polyglot_payload_def polyglot_raw_output_eq)
qed

lemma polyglot_zlib:
  "zlib_inflate c polyglot = Inr polyglot_payload"
proof -
  let ?t = "0x01 # 0x00 # 0x00 # 0xFF # 0xFF # adler32_bytes polyglot_payload"
  let ?b = "polyglot_payload @ ?t"
  have 1: "inflate_blocks c (0x00 # 0xFE # 0xFF # 0x01 # 0x00 # ?b) [] =
           inflate_blocks c (drop (unat (0xFE :: 8 word) + 256 * unat (0xFF :: 8 word)) ?b)
             ([] @ take (unat (0xFE :: 8 word) + 256 * unat (0xFF :: 8 word)) ?b)"
    by (rule inflate_blocks_stored_more) (simp_all add: length_polyglot_payload)
  have 2: "inflate_blocks c (0x01 # 0x00 # 0x00 # 0xFF # 0xFF # adler32_bytes polyglot_payload) polyglot_payload =
           Inr (polyglot_payload @ take (unat (0x00 :: 8 word) + 256 * unat (0x00 :: 8 word)) (adler32_bytes polyglot_payload),
                drop (unat (0x00 :: 8 word) + 256 * unat (0x00 :: 8 word)) (adler32_bytes polyglot_payload))"
    by (rule inflate_blocks_stored_final) simp_all
  have "inflate_blocks c (0x00 # 0xFE # 0xFF # 0x01 # 0x00 # ?b) [] =
          Inr (polyglot_payload, adler32_bytes polyglot_payload)"
    using 1 2 by (simp add: length_polyglot_payload)
  then show ?thesis
    by (simp add: zlib_inflate_def polyglot_eq length_adler32_bytes)
qed

lemma zlib_inflate_no_header:
  assumes "\<not> zlib_header data"
  shows "\<exists>m. zlib_inflate c data = Inl (ZlibError m)"
proof (cases data)
  case Nil
  then show ?thesis by (simp add: zlib_inflate_def err_incomplete_def)
next
  case (Cons cmf rest)
  show ?thesis
  proof (cases rest)
    case Nil
    with Cons show ?thesis by (simp add: zlib_inflate_def err_incomplete_def)
  next
    case (Cons flg rest')
    with \<open>data = cmf # rest\<close> assms show ?thesis
      by (auto simp: zlib_inflate_def zlib_header_def not_le)
  qed
qed

lemma null_stream_blocks:
  "inflate_blocks c null_stream [] = Inr ([0x6E, 0x75, 0x6C, 0x6C], [])"
  by (simp add: null_stream_def Let_def)

lemma null_stream_no_header: "\<not> zlib_header null_stream"
  by (simp add: zlib_header_def null_stream_def)

lemma polyglot_header: "zlib_header polyglot"
  by (simp add: zlib_header_def polyglot_def)

text \<open>
  Claim C2 fails on the code. The bytes \<open>level0_stream\<close> are the zlib stream, without
  compression, of a JSON document: zlib-wrapped inflate returns the JSON text. Raw inflate,
  which the decompressor tries first, accepts the same bytes (the header \<open>78 01\<close> and the
  block header \<open>01 FE FE\<close> read as a stored block of 257 bytes, and the bytes
  \<open>41 C3 BF 3C 40\<close> of the name as the header of a final stored block), so the decompressor
  returns \<open>misread_text\<close> and never tries the zlib strategy; \<^verbatim>\<open>load_data\<close> then decodes and
  parses \<open>misread_text\<close>, which begins with two bytes \<open>01\<close>, not the JSON text.
\<close>

theorem level0_round_trip_broken:
  "zlib_model c other level0_stream 15 = Inr json_text \<and>
   decompress_data (zlib_model c other) level0_stream =
     ([Succeeded ''_try_raw_deflate''], Inr misread_text) \<and>
   misread_text \<noteq> json_text \<and>
   load_data \<lparr>zlib_decompress = zlib_model c other, utf8_decode = decode, json_loads = loads\<rparr>
       level0_archive (init path) =
     (case decode misread_text of
        Inl e \<Rightarrow> (Inl (reraise e), init path, [Succeeded ''_try_raw_deflate''])
      | Inr text \<Rightarrow>
          (case loads text of
             Inl e \<Rightarrow> (Inl (reraise e), init path, [Succeeded ''_try_raw_deflate''])
           | Inr doc \<Rightarrow>
               (Inr doc, (init path)\<lparr>self_data := doc\<rparr>, [Succeeded ''_try_raw_deflate''])))"
  by (simp only: zlib_level0 decompress_level0 load_level0 misread_differs not_False_eq_True
      simp_thms)

text \<open>
  Claim C5, as stated, fails: the bytes \<open>polyglot\<close> are a raw deflate stream, with no byte
  left after its final block, and zlib-wrapped inflate succeeds on them too. Their first two
  bytes, \<open>78 01\<close>, are a zlib header and at the same time the start of a stored block.
\<close>

theorem raw_stream_counterexample:
  "inflate_blocks no_compressed_blocks polyglot [] = Inr (polyglot_raw_output, []) \<and>
   try_raw_deflate (example_zlib) polyglot =
     Inr polyglot_raw_output \<and>
   try_zlib_deflate (example_zlib) polyglot =
     Inr polyglot_payload \<and>
   zlib_header polyglot"
  by (simp add: try_raw_deflate_def try_zlib_deflate_def example_zlib_def zlib_model_def
      polyglot_raw polyglot_zlib polyglot_header)

text \<open>
  Claim C5, amended. For every byte sequence that is a raw deflate stream and does not
  begin with a zlib header, strategy 1 succeeds on it and strategy 2 fails on it with an
  error of zlib; the decompressor returns the output of strategy 1. This holds for every
  decoder of compressed blocks. A stream written by a compressor is of this kind: its first
  byte is a block header, whose low four bits are 8 only for a stored block with a padding
  bit set.
\<close>

theorem raw_stream_not_zlib:
  assumes "inflate_blocks c data [] = Inr (out, unused)" and "\<not> zlib_header data"
  shows "try_raw_deflate (zlib_model c other) data = Inr out \<and>
         (\<exists>m. try_zlib_deflate (zlib_model c other) data = Inl (ZlibError m)) \<and>
         decompress_data (zlib_model c other) data = ([Succeeded ''_try_raw_deflate''], Inr out)"
proof -
  have raw: "try_raw_deflate (zlib_model c other) data = Inr out"
    using assms(1) by (simp add: try_raw_deflate_def zlib_model_def)
  moreover have "\<exists>m. try_zlib_deflate (zlib_model c other) data = Inl (ZlibError m)"
    using zlib_inflate_no_header [OF assms(2)] by (simp add: try_zlib_deflate_def zlib_model_def)
  moreover have "decompress_data (zlib_model c other) data =
                   ([Succeeded ''_try_raw_deflate''], Inr out)"
    using raw by (simp add: decompress_data_cases)
  ultimately show ?thesis by blast
qed

theorem raw_stream_not_zlib_witness:
  "inflate_blocks no_compressed_blocks null_stream [] = Inr ([0x6E, 0x75, 0x6C, 0x6C], []) \<and>
   \<not> zlib_header null_stream \<and>
   try_raw_deflate example_zlib null_stream = Inr [0x6E, 0x75, 0x6C, 0x6C] \<and>
   try_zlib_deflate example_zlib null_stream =
     Inl (ZlibError ''Error -3 while decompressing data: incorrect header check'') \<and>
   decompress_data example_zlib null_stream =
     ([Succeeded ''_try_raw_deflate''], Inr [0x6E, 0x75, 0x6C, 0x6C])"
proof -
  have h1: "inflate_blocks no_compressed_blocks null_stream [] = Inr ([0x6E, 0x75, 0x6C, 0x6C], [])"
    by (rule null_stream_blocks)
  have h2: "\<not> zlib_header null_stream"
    by (rule null_stream_no_header)
  from raw_stream_not_zlib [where c = no_compressed_blocks and other = example_gzip_inflate,
         OF h1 h2] h1 h2
  show ?thesis
    by (simp add: example_zlib_def try_zlib_deflate_def null_stream_zlib)
qed

section \<open>Properties of loading\<close>

lemma example_load_null:
  "load_data example_library null_archive (init ''p.sop'') =
     (Inr JNull, init ''p.sop'', [Succeeded ''_try_raw_deflate''])"
  by (simp add: load_data_def init_def null_archive_def example_library_def ends_with_def
      zip_read_def decompress_data_cases try_raw_deflate_def example_zlib_def null_stream_raw)

lemma example_load_empty_object:
  "load_data example_library empty_object_archive (init ''p.sop'') =
     (Inr (JObj []), \<lparr>sop_file_path = ''p.sop'', self_data = JObj []\<rparr>,
      [Succeeded ''_try_raw_deflate''])"
  by (simp add: load_data_def init_def empty_object_archive_def example_library_def ends_with_def
      zip_read_def decompress_data_cases try_raw_deflate_def example_zlib_def
      empty_object_stream_raw)

lemma example_load_no_file:
  "self_data self = JNull \<Longrightarrow>
   load_data lib no_file self =
     (Inl (FileNotFoundError (msg_not_found @ sop_file_path self)), self, [])"
  by (simp add: load_data_def no_file_def)

text \<open>
  Claim C7. When the path exists and opens as an archive, and no entry name ends in
  \<^verbatim>\<open>.data\<close>, a first \<^verbatim>\<open>load_data\<close> raises the \<^verbatim>\<open>ValueError\<close> with the message kept for this
  case, which is none of the messages of the other failures: the one of a corrupt archive,
  the one of exhausted decompression, and those of a JSON error.
\<close>

theorem missing_data_entry:
  assumes "self_data self = JNull" and "path_exists env" and "open_zip env = Inr sop_zip"
    and "list_all (\<lambda>f. \<not> ends_with f ''.data'') (map fst sop_zip)"
  shows "load_data lib env self = (Inl (ValueError msg_no_data_file), self, []) \<and>
         msg_no_data_file \<noteq> msg_bad_zip \<and> msg_no_data_file \<noteq> msg_exhausted \<and>
         msg_no_data_file \<noteq> msg_json_error @ m"
proof -
  from assms(4) have "filter (\<lambda>f. ends_with f ''.data'') (map fst sop_zip) = []"
    by (simp add: filter_empty_conv list_all_iff)
  with assms(1-3) have "load_data lib env self = (Inl (ValueError msg_no_data_file), self, [])"
    by (simp add: load_data_def)
  moreover have "msg_no_data_file \<noteq> msg_bad_zip" "msg_no_data_file \<noteq> msg_exhausted"
    "msg_no_data_file \<noteq> msg_json_error @ m"
    by (simp_all add: msg_no_data_file_def msg_bad_zip_def msg_exhausted_def msg_json_error_def)
  ultimately show ?thesis by simp
qed

theorem missing_data_entry_witness:
  "self_data (init ''p.sop'') = JNull \<and> path_exists no_data_archive \<and>
   open_zip no_data_archive = Inr [(''readme.txt'', Inr [])] \<and>
   list_all (\<lambda>f. \<not> ends_with f ''.data'') (map fst [(''readme.txt'', Inr ([] :: bytes))]) \<and>
   load_data example_library no_data_archive (init ''p.sop'') =
     (Inl (ValueError msg_no_data_file), init ''p.sop'', [])"
proof -
  have h1: "self_data (init ''p.sop'') = JNull"
    by (simp add: init_def)
  have h2: "path_exists no_data_archive"
    by (simp add: no_data_archive_def)
  have h3: "open_zip no_data_archive = Inr [(''readme.txt'', Inr [])]"
    by (simp add: no_data_archive_def)
  have h4: "list_all (\<lambda>f. \<not> ends_with f ''.data'') (map fst [(''readme.txt'', Inr ([] :: bytes))])"
    by (simp add: ends_with_def)
  from missing_data_entry [OF h1 h2 h3 h4, of example_library] h1 h2 h3 h4 show ?thesis
    by simp
qed

text \<open>
  Claim C10, as stated, fails in its second half: a payload that is the JSON text \<^verbatim>\<open>null\<close>
  loads with success and leaves \<^verbatim>\<open>self._data\<close> at \<^verbatim>\<open>None\<close>, so the next call decodes again
  (it prints the decompressor's line again), and raises when the file has gone meanwhile.
\<close>

theorem load_data_cache_counterexample:
  "load_data example_library null_archive (init ''p.sop'') =
     (Inr JNull, init ''p.sop'', [Succeeded ''_try_raw_deflate'']) \<and>
   load_data example_library null_archive
       (fst (snd (load_data example_library null_archive (init ''p.sop'')))) =
     (Inr JNull, init ''p.sop'', [Succeeded ''_try_raw_deflate'']) \<and>
   load_data example_library no_file
       (fst (snd (load_data example_library null_archive (init ''p.sop'')))) =
     (Inl (FileNotFoundError (msg_not_found @ ''p.sop'')), init ''p.sop'', [])"
  by (simp add: example_load_null) (simp add: example_load_no_file init_def)

text \<open>
  Claim C10, amended. A \<^verbatim>\<open>load_data\<close> that raises leaves the object as it was, with
  \<^verbatim>\<open>self._data\<close> unset, so that the next call does what a first call does. After a
  \<^verbatim>\<open>load_data\<close> that returned a document other than \<^verbatim>\<open>None\<close>, every later call returns that
  document, whatever the library and the file system would answer, prints nothing and
  leaves the object unchanged.
\<close>

theorem load_data_cache:
  "(fst (load_data lib env self) = Inl e \<longrightarrow>
      fst (snd (load_data lib env self)) = self \<and> self_data self = JNull \<and>
      load_data lib' env' (fst (snd (load_data lib env self))) = load_data lib' env' self) \<and>
   (fst (load_data lib env self) = Inr doc \<and> doc \<noteq> JNull \<longrightarrow>
      load_data lib' env' (fst (snd (load_data lib env self))) =
        (Inr doc, fst (snd (load_data lib env self)), []))"
proof (intro conjI impI)
  assume failed: "fst (load_data lib env self) = Inl e"
  then show same: "fst (snd (load_data lib env self)) = self"
    by (auto simp: load_data_def split: if_splits sum.splits list.splits prod.splits)
  from failed show "self_data self = JNull"
    by (auto simp: load_data_def split: if_splits sum.splits list.splits prod.splits)
  from same show "load_data lib' env' (fst (snd (load_data lib env self))) = load_data lib' env' self"
    by simp
next
  assume "fst (load_data lib env self) = Inr doc \<and> doc \<noteq> JNull"
  then show "load_data lib' env' (fst (snd (load_data lib env self))) =
               (Inr doc, fst (snd (load_data lib env self)), [])"
    by (auto simp: load_data_def split: if_splits sum.splits list.splits prod.splits)
qed

theorem load_data_cache_witness:
  "fst (load_data example_library no_file (init ''p.sop'')) =
     Inl (FileNotFoundError (msg_not_found @ ''p.sop'')) \<and>
   fst (snd (load_data example_library no_file (init ''p.sop''))) = init ''p.sop'' \<and>
   fst (load_data example_library empty_object_archive (init ''p.sop'')) = Inr (JObj []) \<and>
   JObj [] \<noteq> JNull \<and>
   load_data example_library no_file
       (fst (snd (load_data example_library empty_object_archive (init ''p.sop'')))) =
     (Inr (JObj []), \<lparr>sop_file_path = ''p.sop'', self_data = JObj []\<rparr>, [])"
proof -
  have h1: "fst (load_data example_library no_file (init ''p.sop'')) =
              Inl (FileNotFoundError (msg_not_found @ ''p.sop''))"
    by (simp add: example_load_no_file init_def)
  have h2: "fst (load_data example_library empty_object_archive (init ''p.sop'')) = Inr (JObj []) \<and>
            JObj [] \<noteq> JNull"
    by (simp add: example_load_empty_object)
  from load_data_cache [where lib = example_library and env = no_file and self = "init ''p.sop''"
         and e = "FileNotFoundError (msg_not_found @ ''p.sop'')"] h1
  have a: "fst (snd (load_data example_library no_file (init ''p.sop''))) = init ''p.sop''"
    by blast
  from load_data_cache [where lib = example_library and env = empty_object_archive
         and self = "init ''p.sop''" and doc = "JObj []" and lib' = example_library
         and env' = no_file] h2
  have b: "load_data example_library no_file
             (fst (snd (load_data example_library empty_object_archive (init ''p.sop'')))) =
           (Inr (JObj []),
            fst (snd (load_data example_library empty_object_archive (init ''p.sop''))), [])"
    by blast
  from a b h1 h2 show ?thesis
    by (simp add: example_load_empty_object)
qed

section \<open>Properties of the tables and of the actions summary\<close>

subsection \<open>Insertion-ordered dictionaries\<close>

lemma dict_get_absent: "py_key k \<notin> set (keys_of d) \<Longrightarrow> dict_get d k dflt = dflt"
  by (induction d) (auto simp: keys_of_def)

lemma dict_set_absent: "py_key k \<notin> set (keys_of d) \<Longrightarrow> dict_set d k v = d @ [(k, v)]"
  by (induction d) (auto simp: keys_of_def)

lemma dict_get_set_same: "dict_get (dict_set d k v) k dflt = v"
  by (induction d) auto

lemma dict_set_set_same: "dict_set (dict_set d k v) k v' = dict_set d k v'"
  by (induction d) auto

lemma dict_set_present:
  "distinct (keys_of d) \<Longrightarrow> py_key k \<in> set (keys_of d) \<Longrightarrow>
   dict_set d k v = map (\<lambda>entry. if py_key (fst entry) = py_key k then (fst entry, v) else entry) d"
proof (induction d)
  case Nil
  then show ?case by (simp add: keys_of_def)
next
  case (Cons x d)
  show ?case
  proof (cases "py_key (fst x) = py_key k")
    case True
    with Cons.prems have "\<forall>y\<in>set d. py_key (fst y) \<noteq> py_key k"
      by (force simp: keys_of_def)
    then have "map (\<lambda>entry. if py_key (fst entry) = py_key k then (fst entry, v) else entry) d = d"
      by (induction d) auto
    with True show ?thesis by (cases x) simp
  next
    case False
    with Cons show ?thesis by (cases x) (auto simp: keys_of_def)
  qed
qed

lemma dict_get_present:
  "distinct (keys_of d) \<Longrightarrow> entry \<in> set d \<Longrightarrow> py_key (fst entry) = py_key k \<Longrightarrow>
   dict_get d k dflt = snd entry"
  by (induction d) (force simp: keys_of_def)+

lemma sum_dict_set_incr:
  "sum_list (map snd (dict_set d k (dict_get d k 0 + 1))) = sum_list (map snd d) + (1::int)"
  by (induction d) auto

lemma count_dict_set_incr:
  "sum_list (map (\<lambda>x. fst (snd x)) (dict_set d k (fst (dict_get d k (0, a)) + 1, b))) =
   sum_list (map (\<lambda>x. fst (snd x)) d) + (1::int)"
  by (induction d) auto

subsection \<open>The loops\<close>

lemma table_name_of_JObj:
  "table_name_of (JObj r) = get_field r ''table_name'' (JStr ''unknown'')"
  by (simp add: table_name_of_def record_field_def get_field_def)

lemma action_of_JObj:
  "action_of (JObj r) = get_field r ''action'' (JStr ''unknown'')"
  by (simp add: action_of_def record_field_def get_field_def)

lemma tables_step_eq:
  assumes "py_key (get_field r ''table_name'' (JStr ''unknown'')) \<noteq> None"
    and "py_key (get_field r ''action'' (JStr ''unknown'')) \<noteq> None"
  shows "tables_step r tables =
           Inr (dict_set tables (get_field r ''table_name'' (JStr ''unknown''))
                  (fst (dict_get tables (get_field r ''table_name'' (JStr ''unknown'')) (0, [])) + 1,
                   dict_set (snd (dict_get tables (get_field r ''table_name'' (JStr ''unknown'')) (0, [])))
                     (get_field r ''action'' (JStr ''unknown''))
                     (dict_get (snd (dict_get tables (get_field r ''table_name'' (JStr ''unknown'')) (0, [])))
                        (get_field r ''action'' (JStr ''unknown'')) 0 + 1)))"
proof (cases "dict_mem tables (get_field r ''table_name'' (JStr ''unknown''))")
  case True
  with assms show ?thesis
    by (simp add: tables_step_def Let_def dict_get_set_same dict_set_set_same)
next
  case False
  then have "py_key (get_field r ''table_name'' (JStr ''unknown'')) \<notin> set (keys_of tables)"
    by (simp add: dict_mem_def keys_of_def)
  then have "dict_get tables (get_field r ''table_name'' (JStr ''unknown'')) (0, []) = (0, [])"
    by (rule dict_get_absent)
  with assms False show ?thesis
    by (simp add: tables_step_def Let_def dict_get_set_same dict_set_set_same)
qed

lemma first_pos_append_old:
  "py_key a \<in> py_key ` set ns \<Longrightarrow> first_pos a (ns @ ms) = first_pos a ns"
  by (auto simp: first_pos_def takeWhile_append1)

lemma first_pos_less:
  "py_key a \<in> py_key ` set ns \<Longrightarrow> first_pos a ns < length ns"
  unfolding first_pos_def by (induction ns) auto

lemma first_pos_new:
  "py_key n \<notin> py_key ` set ns \<Longrightarrow> first_pos n (ns @ [n]) = length ns"
  unfolding first_pos_def by (induction ns) auto

lemma occurrences_snoc:
  "occurrences k (ns @ [n]) = occurrences k ns + (if py_key n = py_key k then 1 else 0)"
  by (simp add: occurrences_def)

lemma occurrences_absent:
  "py_key k \<notin> py_key ` set ns \<Longrightarrow> occurrences k ns = 0"
  unfolding occurrences_def by (induction ns) auto

lemma tables_inv_empty: "tables_inv [] []"
  by (simp add: tables_inv_def keys_of_def)

lemma tables_inv_step:
  assumes inv: "tables_inv T ns"
  shows "tables_inv (dict_set T n (fst (dict_get T n (0, [])) + 1, x)) (ns @ [n])"
proof (cases "py_key n \<in> set (keys_of T)")
  case False
  from inv have keys: "set (keys_of T) = py_key ` set ns" and dist: "distinct (keys_of T)"
    and cnt: "\<forall>entry\<in>set T. fst (snd entry) = occurrences (fst entry) ns"
    and ord: "sorted_wrt (\<lambda>a b. first_pos a ns < first_pos b ns) (map fst T)"
    by (simp_all add: tables_inv_def)
  from False keys have new: "py_key n \<notin> py_key ` set ns" by simp
  have old: "py_key (fst entry) \<in> py_key ` set ns" if "entry \<in> set T" for entry
    using that keys by (force simp: keys_of_def)
  have eq: "dict_set T n (fst (dict_get T n (0, [])) + 1, x) = T @ [(n, (1, x))]"
    using False by (simp add: dict_set_absent dict_get_absent)
  have "distinct (keys_of (T @ [(n, (1, x))]))"
    using dist False by (simp add: keys_of_def)
  moreover have "set (keys_of (T @ [(n, (1, x))])) = py_key ` set (ns @ [n])"
    using keys by (auto simp: keys_of_def)
  moreover have "\<forall>entry\<in>set (T @ [(n, (1, x))]). fst (snd entry) = occurrences (fst entry) (ns @ [n])"
  proof
    fix entry assume "entry \<in> set (T @ [(n, (1, x))])"
    then consider "entry \<in> set T" | "entry = (n, (1, x))" by auto
    then show "fst (snd entry) = occurrences (fst entry) (ns @ [n])"
    proof cases
      case 1
      with old new have "py_key n \<noteq> py_key (fst entry)" by metis
      with 1 cnt show ?thesis by (simp add: occurrences_snoc)
    next
      case 2
      with new show ?thesis by (simp add: occurrences_snoc occurrences_absent)
    qed
  qed
  moreover have "sorted_wrt (\<lambda>a b. first_pos a (ns @ [n]) < first_pos b (ns @ [n])) (map fst (T @ [(n, (1, x))]))"
  proof -
    have a: "first_pos (fst entry) (ns @ [n]) = first_pos (fst entry) ns" if "entry \<in> set T" for entry
      using old [OF that] by (rule first_pos_append_old)
    have "sorted_wrt (\<lambda>a b. first_pos a (ns @ [n]) < first_pos b (ns @ [n])) (map fst T)"
      using ord a by (simp add: sorted_wrt_map sorted_wrt_iff_nth_less)
    moreover have "first_pos (fst entry) (ns @ [n]) < first_pos n (ns @ [n])" if "entry \<in> set T" for entry
      using a [OF that] first_pos_less [OF old [OF that]] first_pos_new [OF new] by simp
    ultimately show ?thesis by (simp add: sorted_wrt_append)
  qed
  ultimately show ?thesis unfolding eq tables_inv_def by blast
next
  case True
  from inv have keys: "set (keys_of T) = py_key ` set ns" and dist: "distinct (keys_of T)"
    and cnt: "\<forall>entry\<in>set T. fst (snd entry) = occurrences (fst entry) ns"
    and ord: "sorted_wrt (\<lambda>a b. first_pos a ns < first_pos b ns) (map fst T)"
    by (simp_all add: tables_inv_def)
  have old: "py_key (fst entry) \<in> py_key ` set ns" if "entry \<in> set T" for entry
    using that keys by (force simp: keys_of_def)
  let ?v = "(fst (dict_get T n (0, [])) + 1, x)"
  let ?upd = "\<lambda>entry. if py_key (fst entry) = py_key n then (fst entry, ?v) else entry"
  have eq: "dict_set T n ?v = map ?upd T"
    using dist True by (rule dict_set_present)
  have fst_upd: "map fst (map ?upd T) = map fst T"
    by (induction T) auto
  have "distinct (keys_of (map ?upd T))"
    using dist fst_upd by (simp add: keys_of_def flip: map_map)
  moreover have "set (keys_of (map ?upd T)) = py_key ` set (ns @ [n])"
  proof -
    have "keys_of (map ?upd T) = keys_of T"
      using fst_upd by (simp add: keys_of_def flip: map_map)
    with keys True show ?thesis by auto
  qed
  moreover have "\<forall>entry\<in>set (map ?upd T). fst (snd entry) = occurrences (fst entry) (ns @ [n])"
  proof
    fix entry assume "entry \<in> set (map ?upd T)"
    then have "entry \<in> ?upd ` set T" by (simp only: set_map)
    then obtain old_entry where o: "old_entry \<in> set T" "entry = ?upd old_entry" by (rule imageE)
    show "fst (snd entry) = occurrences (fst entry) (ns @ [n])"
    proof (cases "py_key (fst old_entry) = py_key n")
      case True
      with dist o(1) have "dict_get T n (0, []) = snd old_entry"
        by (rule dict_get_present)
      with True o cnt show ?thesis by (simp add: occurrences_snoc)
    next
      case False
      with o cnt show ?thesis by (simp add: occurrences_snoc)
    qed
  qed
  moreover have "sorted_wrt (\<lambda>a b. first_pos a (ns @ [n]) < first_pos b (ns @ [n])) (map fst (map ?upd T))"
  proof -
    have a: "first_pos (fst entry) (ns @ [n]) = first_pos (fst entry) ns" if "entry \<in> set T" for entry
      using old [OF that] by (rule first_pos_append_old)
    have "sorted_wrt (\<lambda>a b. first_pos a (ns @ [n]) < first_pos b (ns @ [n])) (map fst T)"
      using ord a by (simp add: sorted_wrt_map sorted_wrt_iff_nth_less)
    then show ?thesis by (simp only: fst_upd)
  qed
  ultimately show ?thesis unfolding eq tables_inv_def by blast
qed

lemma tables_loop_inv:
  "list_all is_mapping rs \<Longrightarrow>
   list_all (\<lambda>r. hashable (table_name_of r) \<and> hashable (action_of r)) rs \<Longrightarrow>
   tables_inv T ns \<Longrightarrow>
   \<exists>T'. tables_loop rs T = Inr T' \<and> tables_inv T' (ns @ map table_name_of rs) \<and>
        sum_list (map (\<lambda>x. fst (snd x)) T') = sum_list (map (\<lambda>x. fst (snd x)) T) + int (length rs)"
proof (induction rs arbitrary: T ns)
  case Nil
  then show ?case by simp
next
  case (Cons r rs)
  from Cons.prems(1) obtain d where r: "r = JObj d"
    by (cases r) (auto simp: is_mapping_def)
  let ?n = "get_field d ''table_name'' (JStr ''unknown'')"
  let ?a = "get_field d ''action'' (JStr ''unknown'')"
  let ?acts = "snd (dict_get T ?n (0, []))"
  let ?T = "dict_set T ?n (fst (dict_get T ?n (0, [])) + 1, dict_set ?acts ?a (dict_get ?acts ?a 0 + 1))"
  from Cons.prems(2) have h: "py_key ?n \<noteq> None" "py_key ?a \<noteq> None"
    by (simp_all add: r hashable_def table_name_of_JObj action_of_JObj)
  have step: "tables_step d T = Inr ?T"
    using h by (rule tables_step_eq)
  have inv: "tables_inv ?T (ns @ [?n])"
    using Cons.prems(3) by (rule tables_inv_step)
  have sum: "sum_list (map (\<lambda>x. fst (snd x)) ?T) = sum_list (map (\<lambda>x. fst (snd x)) T) + 1"
    by (rule count_dict_set_incr)
  from Cons.prems have rest: "list_all is_mapping rs"
    "list_all (\<lambda>r. hashable (table_name_of r) \<and> hashable (action_of r)) rs"
    by simp_all
  from Cons.IH [OF rest inv] obtain T' where
    T': "tables_loop rs ?T = Inr T'" "tables_inv T' ((ns @ [?n]) @ map table_name_of rs)"
      "sum_list (map (\<lambda>x. fst (snd x)) T') = sum_list (map (\<lambda>x. fst (snd x)) ?T) + int (length rs)"
    by blast
  have "tables_loop (r # rs) T = Inr T'"
    by (simp add: r step T'(1))
  moreover have "tables_inv T' (ns @ map table_name_of (r # rs))"
    using T'(2) by (simp add: r table_name_of_JObj)
  moreover have "sum_list (map (\<lambda>x. fst (snd x)) T') =
                 sum_list (map (\<lambda>x. fst (snd x)) T) + int (length (r # rs))"
    using T'(3) sum by simp
  ultimately show ?case by blast
qed

lemma actions_loop_sum:
  "list_all is_mapping rs \<Longrightarrow> list_all (\<lambda>r. hashable (action_of r)) rs \<Longrightarrow>
   \<exists>acts'. actions_loop rs acts = Inr acts' \<and>
        sum_list (map snd acts') = sum_list (map snd acts) + int (length rs)"
proof (induction rs arbitrary: acts)
  case Nil
  then show ?case by simp
next
  case (Cons r rs)
  from Cons.prems(1) obtain d where r: "r = JObj d"
    by (cases r) (auto simp: is_mapping_def)
  let ?a = "get_field d ''action'' (JStr ''unknown'')"
  let ?acts = "dict_set acts ?a (dict_get acts ?a 0 + 1)"
  from Cons.prems(2) have h: "py_key ?a \<noteq> None"
    by (simp add: r hashable_def action_of_JObj)
  from Cons.prems have rest: "list_all is_mapping rs" "list_all (\<lambda>r. hashable (action_of r)) rs"
    by simp_all
  from Cons.IH [OF rest] obtain acts' where
    a: "actions_loop rs ?acts = Inr acts'"
      "sum_list (map snd acts') = sum_list (map snd ?acts) + int (length rs)"
    by blast
  have "actions_loop (r # rs) acts = Inr acts'"
    using h a(1) by (simp add: r Let_def)
  moreover have "sum_list (map snd acts') = sum_list (map snd acts) + int (length (r # rs))"
    using a(2) by (simp add: sum_dict_set_incr)
  ultimately show ?case by blast
qed

subsection \<open>The stable descending sort\<close>

lemma sum_list_insort_key:
  "sum_list (map g (insort_key f x xs)) = g x + sum_list (map g xs)" for g :: "'a \<Rightarrow> int"
  by (induction xs) auto

lemma sum_list_sort_key:
  "sum_list (map g (sort_key f xs)) = sum_list (map g xs)" for g :: "'a \<Rightarrow> int"
  by (induction xs) (auto simp: sum_list_insort_key)

lemma sum_list_sorted_reverse:
  "sum_list (map g (sorted_reverse f xs)) = sum_list (map g xs)" for g :: "'a \<Rightarrow> int"
proof -
  have "sum_list (map g (sorted_reverse f xs)) = sum_list (rev (map g (sort_key f (rev xs))))"
    by (simp add: sorted_reverse_def rev_map)
  also have "\<dots> = sum_list (map g (sort_key f (rev xs)))"
    by (rule sum_list_rev)
  also have "\<dots> = sum_list (map g (rev xs))"
    by (rule sum_list_sort_key)
  also have "\<dots> = sum_list (rev (map g xs))"
    by (simp add: rev_map)
  also have "\<dots> = sum_list (map g xs)"
    by (rule sum_list_rev)
  finally show ?thesis .
qed

lemma set_sorted_reverse: "set (sorted_reverse f xs) = set xs"
  by (simp add: sorted_reverse_def)

lemma length_sorted_reverse: "length (sorted_reverse f xs) = length xs"
  by (simp add: sorted_reverse_def)

lemma distinct_map_sorted_reverse:
  "distinct (map g (sorted_reverse f xs)) = distinct (map g xs)"
  by (simp add: distinct_map sorted_reverse_def)

lemma sorted_reverse_descending:
  "sorted_wrt (\<lambda>a b. f b \<le> f a) (sorted_reverse f xs)"
proof -
  have "sorted (map f (sort_key f (rev xs)))"
    by simp
  then have "sorted_wrt (\<lambda>a b. f a \<le> f b) (sort_key f (rev xs))"
    by (simp add: sorted_wrt_map)
  then show ?thesis
    by (simp add: sorted_reverse_def sorted_wrt_rev)
qed

lemma sorted_reverse_stable:
  "filter (\<lambda>y. f y = k) (sorted_reverse f xs) = filter (\<lambda>y. f y = k) xs"
proof -
  have "filter (\<lambda>y. f y = k) (sorted_reverse f xs) = rev (filter (\<lambda>y. f y = k) (sort_key f (rev xs)))"
    by (simp add: sorted_reverse_def rev_filter)
  also have "\<dots> = rev (filter (\<lambda>y. f y = k) (rev xs))"
    by (simp only: sort_key_stable)
  also have "\<dots> = filter (\<lambda>y. f y = k) xs"
    by (simp add: rev_filter)
  finally show ?thesis .
qed

lemma sorted_wrt_filter_nth:
  assumes "sorted_wrt Q (filter P xs)" and "i < j" and "j < length xs"
    and "P (xs ! i)" and "P (xs ! j)"
  shows "Q (xs ! i) (xs ! j)"
proof -
  from assms(2,3) have i: "i < length xs" by simp
  have split: "xs = take i xs @ xs ! i # drop (Suc i) xs"
    using i by (rule id_take_nth_drop)
  have "xs ! j = drop (Suc i) xs ! (j - Suc i)"
    using assms(2,3) by simp
  moreover have "j - Suc i < length (drop (Suc i) xs)"
    using assms(2,3) by simp
  ultimately have mem: "xs ! j \<in> set (drop (Suc i) xs)"
    by (metis nth_mem)
  have "sorted_wrt Q (filter P (take i xs @ xs ! i # drop (Suc i) xs))"
    using assms(1) split by simp
  with assms(4) have "\<forall>y\<in>set (filter P (drop (Suc i) xs)). Q (xs ! i) y"
    by (simp add: sorted_wrt_append)
  with mem assms(5) show ?thesis by simp
qed

subsection \<open>The results\<close>

lemma analyze_tables_result:
  assumes "records_of data = Some rs"
    and "list_all (\<lambda>r. hashable (table_name_of r) \<and> hashable (action_of r)) rs"
  shows "\<exists>T. tables_inv T (map table_name_of rs) \<and>
             sum_list (map (\<lambda>x. fst (snd x)) T) = int (length rs) \<and>
             analyze_tables data =
               Inr (map (\<lambda>(table_name, table_data).
                           \<lparr>name = table_name, record_count = fst table_data,
                            actions = snd table_data\<rparr>)
                      (sorted_reverse (\<lambda>x. fst (snd x)) T))"
proof -
  from records_of_SomeD [OF assms(1)] obtain d where
    d: "data = JObj d" "get_field d ''records'' (JArr []) = JArr rs" "list_all is_mapping rs"
    by blast
  from tables_loop_inv [OF d(3) assms(2) tables_inv_empty] obtain T where
    T: "tables_loop rs [] = Inr T" "tables_inv T (map table_name_of rs)"
      "sum_list (map (\<lambda>x. fst (snd x)) T) = int (length rs)"
    by auto
  have "analyze_tables data =
          Inr (map (\<lambda>(table_name, table_data).
                      \<lparr>name = table_name, record_count = fst table_data,
                       actions = snd table_data\<rparr>)
                 (sorted_reverse (\<lambda>x. fst (snd x)) T))"
    by (simp add: analyze_tables_def d T(1))
  with T(2,3) show ?thesis by blast
qed

lemma get_actions_summary_result:
  assumes "records_of data = Some rs"
    and "list_all (\<lambda>r. hashable (action_of r)) rs"
  shows "\<exists>acts. get_actions_summary data = Inr acts \<and> sum_list (map snd acts) = int (length rs)"
proof -
  from records_of_SomeD [OF assms(1)] obtain d where
    d: "data = JObj d" "get_field d ''records'' (JArr []) = JArr rs" "list_all is_mapping rs"
    by blast
  from actions_loop_sum [OF d(3) assms(2), of "[]"] show ?thesis
    by (simp add: get_actions_summary_def d)
qed

lemma example_records_of: "records_of example_document = Some example_records"
  by (simp add: records_of_def example_document_def example_records_def get_field_def is_mapping_def)

lemma example_hashable:
  "list_all (\<lambda>r. hashable (table_name_of r) \<and> hashable (action_of r)) example_records"
  by (simp add: example_records_def hashable_def table_name_of_def action_of_def record_field_def)

lemma example_tables:
  "analyze_tables example_document =
     Inr [\<lparr>name = JStr ''users'', record_count = 2,
           actions = [(JStr ''insert'', 1), (JStr ''delete'', 1)]\<rparr>,
          \<lparr>name = JStr ''products'', record_count = 1, actions = [(JStr ''update'', 1)]\<rparr>,
          \<lparr>name = JStr ''orders'', record_count = 1, actions = [(JStr ''insert'', 1)]\<rparr>]"
  by (simp add: analyze_tables_def example_document_def get_field_def tables_step_def dict_mem_def
      sorted_reverse_def Let_def)

lemma example_actions:
  "get_actions_summary example_document =
     Inr [(JStr ''insert'', 2), (JStr ''delete'', 1), (JStr ''update'', 1)]"
  by (simp add: get_actions_summary_def example_document_def get_field_def Let_def)

lemma sparse_records_of: "records_of sparse_document = Some sparse_records"
  by (simp add: records_of_def sparse_document_def sparse_records_def get_field_def is_mapping_def)

lemma sparse_hashable:
  "list_all (\<lambda>r. hashable (table_name_of r) \<and> hashable (action_of r)) sparse_records"
  by (simp add: sparse_records_def hashable_def table_name_of_def action_of_def record_field_def)

lemma sparse_actions:
  "get_actions_summary sparse_document = Inr [(JStr ''unknown'', 2), (JNull, 1)]"
  by (simp add: get_actions_summary_def sparse_document_def sparse_records_def get_field_def Let_def)

lemma sparse_tables:
  "analyze_tables sparse_document =
     Inr [\<lparr>name = JStr ''unknown'', record_count = 2,
           actions = [(JStr ''unknown'', 1), (JNull, 1)]\<rparr>,
          \<lparr>name = JStr ''users'', record_count = 1, actions = [(JStr ''unknown'', 1)]\<rparr>]"
  by (simp add: analyze_tables_def sparse_document_def sparse_records_def get_field_def
      tables_step_def dict_mem_def sorted_reverse_def Let_def)

text \<open>
  Claim C6. On every document whose table names and actions are hashable values (strings,
  numbers, booleans, \<^verbatim>\<open>None\<close>), both operations return; the values of the actions summary
  sum to the number of records, and so do the record counts of the table entries. A record
  without a table name or an action counts under the default \<^verbatim>\<open>unknown\<close>.
\<close>

theorem counts_sum_to_records:
  assumes "records_of data = Some rs"
    and "list_all (\<lambda>r. hashable (table_name_of r) \<and> hashable (action_of r)) rs"
  shows "\<exists>acts ts. get_actions_summary data = Inr acts \<and> sum_list (map snd acts) = int (length rs) \<and>
           analyze_tables data = Inr ts \<and> sum_list (map record_count ts) = int (length rs)"
proof -
  from assms(2) have "list_all (\<lambda>r. hashable (action_of r)) rs"
    by (simp add: list_all_iff)
  from get_actions_summary_result [OF assms(1) this] obtain acts where
    acts: "get_actions_summary data = Inr acts" "sum_list (map snd acts) = int (length rs)"
    by blast
  from analyze_tables_result [OF assms] obtain T where
    T: "sum_list (map (\<lambda>x. fst (snd x)) T) = int (length rs)"
      "analyze_tables data =
         Inr (map (\<lambda>(table_name, table_data).
                     \<lparr>name = table_name, record_count = fst table_data,
                      actions = snd table_data\<rparr>)
                (sorted_reverse (\<lambda>x. fst (snd x)) T))"
    by blast
  have "map record_count
          (map (\<lambda>(table_name, table_data).
                  \<lparr>name = table_name, record_count = fst table_data, actions = snd table_data\<rparr>)
             (sorted_reverse (\<lambda>x. fst (snd x)) T)) =
        map (\<lambda>x. fst (snd x)) (sorted_reverse (\<lambda>x. fst (snd x)) T)"
    by (simp add: case_prod_beta)
  then have "sum_list (map record_count
          (map (\<lambda>(table_name, table_data).
                  \<lparr>name = table_name, record_count = fst table_data, actions = snd table_data\<rparr>)
             (sorted_reverse (\<lambda>x. fst (snd x)) T))) = int (length rs)"
    by (simp only: sum_list_sorted_reverse T(1))
  with acts T(2) show ?thesis by blast
qed

theorem counts_sum_to_records_witness:
  "records_of sparse_document = Some sparse_records \<and>
   list_all (\<lambda>r. hashable (table_name_of r) \<and> hashable (action_of r)) sparse_records \<and>
   (\<exists>acts ts. get_actions_summary sparse_document = Inr acts \<and> sum_list (map snd acts) = 3 \<and>
      analyze_tables sparse_document = Inr ts \<and> sum_list (map record_count ts) = 3)"
proof -
  from counts_sum_to_records [OF sparse_records_of sparse_hashable]
  have "\<exists>acts ts. get_actions_summary sparse_document = Inr acts \<and> sum_list (map snd acts) = 3 \<and>
      analyze_tables sparse_document = Inr ts \<and> sum_list (map record_count ts) = 3"
    by (simp add: sparse_records_def)
  with sparse_records_of sparse_hashable show ?thesis
    by simp
qed

text \<open>
  Claim C4. On every document whose table names and actions are hashable values,
  \<^verbatim>\<open>analyze_tables\<close> returns one entry for each distinct table name (distinct as Python compares
  dictionary keys), each with the number of records of that table; the entries are in
  descending order of record count, and of two entries with the same count the one whose
  table occurs first in the record list comes first. The result is a function of the
  document, so a second run gives the same list.
\<close>

theorem tables_order:
  assumes "records_of data = Some rs"
    and "list_all (\<lambda>r. hashable (table_name_of r) \<and> hashable (action_of r)) rs"
  shows "\<exists>ts. analyze_tables data = Inr ts \<and>
           distinct (map (\<lambda>t. py_key (name t)) ts) \<and>
           (\<lambda>t. py_key (name t)) ` set ts = py_key ` set (map table_name_of rs) \<and>
           list_all (\<lambda>t. record_count t = occurrences (name t) (map table_name_of rs)) ts \<and>
           sorted_wrt (\<lambda>a b. record_count b \<le> record_count a) ts \<and>
           (\<forall>i j. i < j \<and> j < length ts \<and> record_count (ts ! i) = record_count (ts ! j) \<longrightarrow>
              first_pos (name (ts ! i)) (map table_name_of rs) <
              first_pos (name (ts ! j)) (map table_name_of rs))"
proof -
  let ?ns = "map table_name_of rs"
  let ?f = "\<lambda>x :: json \<times> table_data. fst (snd x)"
  let ?mk = "\<lambda>x :: json \<times> table_data. \<lparr>name = fst x, record_count = fst (snd x), actions = snd (snd x)\<rparr>"
  from analyze_tables_result [OF assms] obtain T where
    inv: "tables_inv T ?ns" and
    res: "analyze_tables data = Inr (map ?mk (sorted_reverse ?f T))"
    by (auto simp: case_prod_beta)
  let ?R = "sorted_reverse ?f T"
  let ?ts = "map ?mk ?R"
  from inv have keys: "set (keys_of T) = py_key ` set ?ns" and dist: "distinct (keys_of T)"
    and cnt: "\<forall>entry\<in>set T. fst (snd entry) = occurrences (fst entry) ?ns"
    and ord: "sorted_wrt (\<lambda>a b. first_pos a ?ns < first_pos b ?ns) (map fst T)"
    by (simp_all add: tables_inv_def)
  have 1: "distinct (map (\<lambda>t. py_key (name t)) ?ts)"
  proof -
    have "map (\<lambda>t. py_key (name t)) ?ts = map (py_key \<circ> fst) ?R"
      by (simp add: comp_def)
    moreover have "distinct (map (py_key \<circ> fst) ?R)"
      using dist by (simp only: distinct_map_sorted_reverse keys_of_def)
    ultimately show ?thesis by (simp only:)
  qed
  have 2: "(\<lambda>t. py_key (name t)) ` set ?ts = py_key ` set ?ns"
  proof -
    have "(\<lambda>t. py_key (name t)) ` set ?ts = (py_key \<circ> fst) ` set ?R"
      by (simp add: image_image)
    also have "\<dots> = set (keys_of T)"
      by (simp add: set_sorted_reverse keys_of_def)
    finally show ?thesis using keys by simp
  qed
  have 3: "list_all (\<lambda>t. record_count t = occurrences (name t) ?ns) ?ts"
    using cnt by (simp add: list_all_iff set_sorted_reverse)
  have 4: "sorted_wrt (\<lambda>a b. record_count b \<le> record_count a) ?ts"
    using sorted_reverse_descending [of ?f T] by (simp add: sorted_wrt_map)
  have 5: "first_pos (name (?ts ! i)) ?ns < first_pos (name (?ts ! j)) ?ns"
    if "i < j" "j < length ?ts" "record_count (?ts ! i) = record_count (?ts ! j)" for i j
  proof -
    from that have j: "j < length ?R" and i: "i < length ?R" by simp_all
    from that(3) i j have eq: "?f (?R ! i) = ?f (?R ! j)" by simp
    let ?P = "\<lambda>y. ?f y = ?f (?R ! j)"
    have "sorted_wrt (\<lambda>a b. first_pos (fst a) ?ns < first_pos (fst b) ?ns) T"
      using ord by (simp add: sorted_wrt_map)
    then have "sorted_wrt (\<lambda>a b. first_pos (fst a) ?ns < first_pos (fst b) ?ns) (filter ?P T)"
      by (rule sorted_wrt_filter)
    then have "sorted_wrt (\<lambda>a b. first_pos (fst a) ?ns < first_pos (fst b) ?ns) (filter ?P ?R)"
      by (simp only: sorted_reverse_stable)
    from sorted_wrt_filter_nth [OF this that(1) j] eq
    have "first_pos (fst (?R ! i)) ?ns < first_pos (fst (?R ! j)) ?ns"
      by simp
    with i j show ?thesis by simp
  qed
  from res 1 2 3 4 5 show ?thesis by blast
qed

theorem tables_order_witness:
  "records_of example_document = Some example_records \<and>
   list_all (\<lambda>r. hashable (table_name_of r) \<and> hashable (action_of r)) example_records \<and>
   (\<exists>ts. analyze_tables example_document = Inr ts \<and>
      map name ts = [JStr ''users'', JStr ''products'', JStr ''orders''] \<and>
      map record_count ts = [2, 1, 1] \<and>
      distinct (map (\<lambda>t. py_key (name t)) ts) \<and>
      sorted_wrt (\<lambda>a b. record_count b \<le> record_count a) ts)"
proof -
  from tables_order [OF example_records_of example_hashable] obtain ts where
    ts: "analyze_tables example_document = Inr ts"
      "distinct (map (\<lambda>t. py_key (name t)) ts)"
      "sorted_wrt (\<lambda>a b. record_count b \<le> record_count a) ts"
    by blast
  from ts(1) have "map name ts = [JStr ''users'', JStr ''products'', JStr ''orders'']"
    "map record_count ts = [2, 1, 1]"
    by (auto simp: example_tables)
  with ts have "\<exists>ts. analyze_tables example_document = Inr ts \<and>
      map name ts = [JStr ''users'', JStr ''products'', JStr ''orders''] \<and>
      map record_count ts = [2, 1, 1] \<and>
      distinct (map (\<lambda>t. py_key (name t)) ts) \<and>
      sorted_wrt (\<lambda>a b. record_count b \<le> record_count a) ts"
    by (intro exI [of _ ts] conjI)
  with example_records_of example_hashable show ?thesis
    by (intro conjI)
qed

end
